theory Spec2Isabelle
  imports Complex_Main "HOL-Library.Multiset" "HOL-Library.Sublist" "HOL-Library.AList"
begin

section \<open>JavaScript values used by the extension\<close>

text \<open>
  A thrown \<^verbatim>\<open>new Error(message)\<close> is the value \<open>Error message\<close>; a function that can
  throw (or an async function whose promise can reject) returns \<open>js_error + 'a\<close>, with
  \<open>Inl\<close> for the throw.
\<close>

datatype js_error = Error (message: string)

subsection \<open>Strings and \<^verbatim>\<open>String.prototype.trim\<close>\<close>

text \<open>
  A string is the list of the bytes of its UTF-8 encoding (the literals of the program
  are ASCII). \<open>white_space\<close> lists the encodings of the code points that
  \<^verbatim>\<open>String.prototype.trim\<close> removes, the white space and line terminators of ECMAScript:
  U+0009 to U+000D, U+0020, U+00A0, U+1680, U+2000 to U+200A, U+2028, U+2029, U+202F,
  U+205F, U+3000 and U+FEFF.
\<close>

definition white_space :: "string list" where
  "white_space =
     [[CHR 0x09], [CHR 0x0A], [CHR 0x0B], [CHR 0x0C], [CHR 0x0D], [CHR 0x20],
      [CHR 0xC2, CHR 0xA0],
      [CHR 0xE1, CHR 0x9A, CHR 0x80],
      [CHR 0xE2, CHR 0x80, CHR 0x80], [CHR 0xE2, CHR 0x80, CHR 0x81],
      [CHR 0xE2, CHR 0x80, CHR 0x82], [CHR 0xE2, CHR 0x80, CHR 0x83],
      [CHR 0xE2, CHR 0x80, CHR 0x84], [CHR 0xE2, CHR 0x80, CHR 0x85],
      [CHR 0xE2, CHR 0x80, CHR 0x86], [CHR 0xE2, CHR 0x80, CHR 0x87],
      [CHR 0xE2, CHR 0x80, CHR 0x88], [CHR 0xE2, CHR 0x80, CHR 0x89],
      [CHR 0xE2, CHR 0x80, CHR 0x8A],
      [CHR 0xE2, CHR 0x80, CHR 0xA8], [CHR 0xE2, CHR 0x80, CHR 0xA9],
      [CHR 0xE2, CHR 0x80, CHR 0xAF],
      [CHR 0xE2, CHR 0x81, CHR 0x9F],
      [CHR 0xE3, CHR 0x80, CHR 0x80],
      [CHR 0xEF, CHR 0xBB, CHR 0xBF]]"

text \<open>
  \<open>strip ws s\<close> removes from the front of \<open>s\<close> every leading occurrence of one of the
  byte sequences \<open>ws\<close>.
\<close>

function strip :: "string list \<Rightarrow> string \<Rightarrow> string" where
  "strip ws s =
     (case find (\<lambda>w. w \<noteq> [] \<and> take (length w) s = w) ws of
        None \<Rightarrow> s
      | Some w \<Rightarrow> strip ws (drop (length w) s))"
  by pat_completeness auto

termination
proof (relation "measure (\<lambda>(ws, s). length s)")
  show "wf (measure (\<lambda>(ws :: string list, s :: string). length s))" by simp
next
  fix ws :: "string list" and s w :: string
  assume "find (\<lambda>w. w \<noteq> [] \<and> take (length w) s = w) ws = Some w"
  then have ne: "w \<noteq> []" and pre: "take (length w) s = w"
    by (auto simp: find_Some_iff)
  from pre have "length (take (length w) s) = length w" by simp
  then have le: "length w \<le> length s" by simp
  from ne have pos: "0 < length w" by simp
  from le pos have "length s - length w < length s" by arith
  then show "((ws, drop (length w) s), (ws, s)) \<in> measure (\<lambda>(ws, s). length s)"
    by simp
qed

declare strip.simps [simp del]

text \<open>
  \<^verbatim>\<open>s.trim()\<close>: the white space is removed from the front, and from the end by the same
  function on the reversed bytes.
\<close>

definition trim :: "string \<Rightarrow> string" where
  "trim s = rev (strip (map rev white_space) (rev (strip white_space s)))"

subsection \<open>Numbers and their arithmetic\<close>

text \<open>
  A JavaScript number is an IEEE double: a finite value, \<^verbatim>\<open>NaN\<close> or one of the two
  infinities. A finite double is \<open>Num r\<close> for the real \<open>r\<close> it denotes; the sign of a zero
  is not kept (the functions below divide by a product of square roots only, and
  compare by the sign of a difference).
\<close>

datatype jsnum = Num real | NaN | PosInfinity | NegInfinity

type_synonym vector = "jsnum list"

text \<open>\<^verbatim>\<open>Number.isFinite(x)\<close>.\<close>

fun isFinite :: "jsnum \<Rightarrow> bool" where
  "isFinite (Num r) = True"
| "isFinite NaN = False"
| "isFinite PosInfinity = False"
| "isFinite NegInfinity = False"

text \<open>
  Every arithmetic operation returns the exact result rounded to a double, and a
  \<^verbatim>\<open>Float32Array\<close> stores a number rounded to single precision. The two roundings are
  parameters of the model: \<open>round64 fp z\<close> and \<open>round32 fp z\<close> are the double and the single
  nearest to the real \<open>z\<close> (an infinity when \<open>z\<close> is out of range). What a property needs of
  them is stated where it is needed. Zero is a double and a single, so rounding is
  exact at zero.
\<close>

record arith =
  round64 :: "real \<Rightarrow> jsnum"
  round32 :: "real \<Rightarrow> jsnum"

definition fl :: "arith \<Rightarrow> real \<Rightarrow> jsnum" where
  "fl fp z = (if z = 0 then Num 0 else round64 fp z)"

text \<open>\<^verbatim>\<open>Math.fround(x)\<close>, the conversion of an element by \<^verbatim>\<open>Float32Array.from\<close>.\<close>

fun fround :: "arith \<Rightarrow> jsnum \<Rightarrow> jsnum" where
  "fround fp (Num z) = (if z = 0 then Num 0 else round32 fp z)"
| "fround fp x = x"

fun is_zero :: "jsnum \<Rightarrow> bool" where
  "is_zero (Num r) = (r = 0)"
| "is_zero x = False"

fun is_negative :: "jsnum \<Rightarrow> bool" where
  "is_negative (Num r) = (r < 0)"
| "is_negative NegInfinity = True"
| "is_negative x = False"

text \<open>\<open>x > 0\<close>.\<close>

fun js_positive :: "jsnum \<Rightarrow> bool" where
  "js_positive (Num r) = (0 < r)"
| "js_positive PosInfinity = True"
| "js_positive x = False"

text \<open>\<open>x + y\<close>, \<open>-x\<close>, \<open>x - y\<close>, \<open>x * y\<close>, \<open>x / y\<close> and \<^verbatim>\<open>Math.sqrt(x)\<close> on doubles.\<close>

fun js_add :: "arith \<Rightarrow> jsnum \<Rightarrow> jsnum \<Rightarrow> jsnum" where
  "js_add fp (Num x) (Num y) = fl fp (x + y)"
| "js_add fp NaN y = NaN"
| "js_add fp x NaN = NaN"
| "js_add fp PosInfinity NegInfinity = NaN"
| "js_add fp NegInfinity PosInfinity = NaN"
| "js_add fp PosInfinity y = PosInfinity"
| "js_add fp x PosInfinity = PosInfinity"
| "js_add fp NegInfinity y = NegInfinity"
| "js_add fp x NegInfinity = NegInfinity"

fun js_neg :: "jsnum \<Rightarrow> jsnum" where
  "js_neg (Num x) = Num (- x)"
| "js_neg NaN = NaN"
| "js_neg PosInfinity = NegInfinity"
| "js_neg NegInfinity = PosInfinity"

definition js_sub :: "arith \<Rightarrow> jsnum \<Rightarrow> jsnum \<Rightarrow> jsnum" where
  "js_sub fp x y = js_add fp x (js_neg y)"

fun js_mul :: "arith \<Rightarrow> jsnum \<Rightarrow> jsnum \<Rightarrow> jsnum" where
  "js_mul fp (Num x) (Num y) = fl fp (x * y)"
| "js_mul fp x y =
     (if x = NaN \<or> y = NaN \<or> is_zero x \<or> is_zero y then NaN
      else if is_negative x = is_negative y then PosInfinity else NegInfinity)"

fun js_div :: "arith \<Rightarrow> jsnum \<Rightarrow> jsnum \<Rightarrow> jsnum" where
  "js_div fp (Num x) (Num y) =
     (if y = 0 then (if x = 0 then NaN else if 0 < x then PosInfinity else NegInfinity)
      else fl fp (x / y))"
| "js_div fp x y =
     (if x = NaN \<or> y = NaN \<or> (\<not> isFinite x \<and> \<not> isFinite y) then NaN
      else if isFinite x then Num 0
      else if is_negative x = is_negative y then PosInfinity else NegInfinity)"

fun js_sqrt :: "arith \<Rightarrow> jsnum \<Rightarrow> jsnum" where
  "js_sqrt fp (Num x) = (if x < 0 then NaN else fl fp (sqrt x))"
| "js_sqrt fp PosInfinity = PosInfinity"
| "js_sqrt fp x = NaN"

text \<open>
  The arithmetic without rounding, where every real is a double and a single. It is
  the arithmetic of the examples whose numbers are computed exactly.
\<close>

definition exact :: arith where
  "exact = \<lparr>round64 = Num, round32 = Num\<rparr>"

text \<open>
  What the properties below ask of the rounding. A real is a double when it is zero or
  the rounding of some real. \<open>subtraction_sign\<close>: the difference of two doubles, as
  computed, is positive exactly when the exact difference is (a difference of two
  different doubles does not round to zero, and an overflow keeps the sign).
  \<open>enclosed x lo hi\<close>: \<open>x\<close> is a finite number between \<open>lo\<close> and \<open>hi\<close>.
  \<open>accurate\<close>: between a thousandth and a thousand in magnitude, a rounding to a double
  or to a single has a relative error of at most one part in 100000 (single precision has
  half a part in 8388608). IEEE arithmetic has both properties.
\<close>

definition enclosed :: "jsnum \<Rightarrow> real \<Rightarrow> real \<Rightarrow> bool" where
  "enclosed x lo hi = (case x of Num r \<Rightarrow> lo \<le> r \<and> r \<le> hi | _ \<Rightarrow> False)"

definition is_double :: "arith \<Rightarrow> real \<Rightarrow> bool" where
  "is_double fp r = (r = 0 \<or> (\<exists>z. round64 fp z = Num r))"

definition subtraction_sign :: "arith \<Rightarrow> bool" where
  "subtraction_sign fp =
     (\<forall>x y. is_double fp x \<and> is_double fp y \<longrightarrow> (js_positive (fl fp (x - y)) \<longleftrightarrow> y < x))"

definition accurate :: "arith \<Rightarrow> bool" where
  "accurate fp =
     (\<forall>z. 1 / 1000 \<le> \<bar>z\<bar> \<and> \<bar>z\<bar> \<le> 1000 \<longrightarrow>
        (\<exists>r. round64 fp z = Num r \<and> \<bar>r - z\<bar> \<le> \<bar>z\<bar> / 100000)
        \<and> (\<exists>r. round32 fp z = Num r \<and> \<bar>r - z\<bar> \<le> \<bar>z\<bar> / 100000))"

section \<open>Vector math: \<^verbatim>\<open>getCosineSimilarity\<close>\<close>

text \<open>
  The loop of \<^verbatim>\<open>getCosineSimilarity\<close> over the indices \<open>0 .. a.length - 1\<close>, run after
  the lengths were found equal, so over the pairs \<open>(a[i], b[i])\<close>. The accumulator is
  \<open>(dot, normA, normB)\<close>.
\<close>

fun cosine_loop :: "arith \<Rightarrow> (jsnum \<times> jsnum) list \<Rightarrow> jsnum \<times> jsnum \<times> jsnum
    \<Rightarrow> js_error + jsnum \<times> jsnum \<times> jsnum" where
  "cosine_loop fp [] acc = Inr acc"
| "cosine_loop fp ((ai, bi) # rest) (dot, normA, normB) =
     (if \<not> isFinite ai \<or> \<not> isFinite bi
      then Inl (Error ''Cosine similarity requires finite vector values.'')
      else cosine_loop fp rest
             (js_add fp dot (js_mul fp ai bi),
              js_add fp normA (js_mul fp ai ai),
              js_add fp normB (js_mul fp bi bi)))"

text \<open>
  An argument is \<open>None\<close> when it is falsy or has no numeric \<^verbatim>\<open>length\<close> (the first guard of
  the function), and \<open>Some v\<close> for an array-like of numbers.
\<close>

definition getCosineSimilarity :: "arith \<Rightarrow> vector option \<Rightarrow> vector option \<Rightarrow> js_error + jsnum" where
  "getCosineSimilarity fp a b =
     (case (a, b) of
        (Some va, Some vb) \<Rightarrow>
          if length va \<noteq> length vb
          then Inl (Error ''Cosine similarity requires vectors of equal length.'')
          else (case cosine_loop fp (zip va vb) (Num 0, Num 0, Num 0) of
                  Inl e \<Rightarrow> Inl e
                | Inr (dot, normA, normB) \<Rightarrow>
                    if normA = Num 0 \<or> normB = Num 0
                    then Inl (Error ''Cosine similarity requires non-zero vectors.'')
                    else Inr (js_div fp dot (js_mul fp (js_sqrt fp normA) (js_sqrt fp normB))))
      | _ \<Rightarrow> Inl (Error ''Cosine similarity requires vectors.''))"

text \<open>
  The spec's error kind \<open>InvalidVector\<close> (dimension mismatch, non-finite component or
  zero norm) is the set of the messages \<^verbatim>\<open>getCosineSimilarity\<close> throws.
\<close>

definition InvalidVector :: "js_error \<Rightarrow> bool" where
  "InvalidVector e =
     (message e \<in> set [''Cosine similarity requires vectors.'',
                      ''Cosine similarity requires vectors of equal length.'',
                      ''Cosine similarity requires finite vector values.'',
                      ''Cosine similarity requires non-zero vectors.''])"

text \<open>
  The mathematical vocabulary of the claims, on the reals the components denote:
  components, dot product, norm and cosine.
\<close>

fun num_val :: "jsnum \<Rightarrow> real" where
  "num_val (Num r) = r"
| "num_val x = 0"

definition dot_product :: "vector \<Rightarrow> vector \<Rightarrow> real" where
  "dot_product a b = (\<Sum>(x, y)\<leftarrow>zip a b. num_val x * num_val y)"

definition vec_norm :: "vector \<Rightarrow> real" where
  "vec_norm a = sqrt (\<Sum>x\<leftarrow>a. num_val x * num_val x)"

definition cosine :: "vector \<Rightarrow> vector \<Rightarrow> real" where
  "cosine a b = dot_product a b / (vec_norm a * vec_norm b)"

section \<open>Plain objects as embedding indexes\<close>

text \<open>
  The embeddings index is a plain object from snippet id to vector, as
  \<^verbatim>\<open>chrome.storage\<close> returns it or as the literal \<^verbatim>\<open>{}\<close> creates it. Its own properties are an
  association list in the order of their creation; every value the program stores is
  an array of numbers. The prototype of the object is \<^verbatim>\<open>Object.prototype\<close>, whose
  members are listed by name.
\<close>

type_synonym cache = "(string \<times> vector) list"

definition prototype_members :: "string list" where
  "prototype_members =
     [''constructor'', ''__defineGetter__'', ''__defineSetter__'', ''hasOwnProperty'',
      ''__lookupGetter__'', ''__lookupSetter__'', ''isPrototypeOf'', ''propertyIsEnumerable'',
      ''toString'', ''valueOf'', ''__proto__'', ''toLocaleString'']"

text \<open>
  What the read \<^verbatim>\<open>obj[key]\<close> evaluates to: the array of an own property, else the member
  that the key names on the prototype (a function, or the prototype itself for
  \<^verbatim>\<open>__proto__\<close>), else \<^verbatim>\<open>undefined\<close>. In a test, an array and a prototype member are truthy.
\<close>

datatype js_value = JsUndefined | JsArray vector | JsMember

definition js_get :: "cache \<Rightarrow> string \<Rightarrow> js_value" where
  "js_get obj k =
     (case map_of obj k of
        Some v \<Rightarrow> JsArray v
      | None \<Rightarrow> if k \<in> set prototype_members then JsMember else JsUndefined)"

fun truthy :: "js_value \<Rightarrow> bool" where
  "truthy JsUndefined = False"
| "truthy (JsArray v) = True"
| "truthy JsMember = True"

text \<open>
  The assignment \<^verbatim>\<open>obj[key] = vector\<close> replaces the value of an own property or adds the
  property at the end. The loop of \<^verbatim>\<open>ensureEmbeddings\<close> assigns only after the read of the
  key gave \<^verbatim>\<open>undefined\<close>, so never to a key that names a prototype member (where
  \<^verbatim>\<open>__proto__\<close> would set the prototype instead). \<^verbatim>\<open>delete obj[key]\<close> removes the own property, and
  \<^verbatim>\<open>Object.keys(obj)\<close> are the keys of the own properties (JavaScript enumerates keys
  that are array indices first; nothing below depends on the order).
\<close>

definition js_set :: "string \<Rightarrow> vector \<Rightarrow> cache \<Rightarrow> cache" where
  "js_set k v obj = AList.update k v obj"

definition js_delete :: "string \<Rightarrow> cache \<Rightarrow> cache" where
  "js_delete k obj = AList.delete k obj"

definition object_keys :: "cache \<Rightarrow> string list" where
  "object_keys obj = map fst obj"

section \<open>Background worker: the persisted embedding cache and \<^verbatim>\<open>ensureEmbeddings\<close>\<close>

text \<open>What \<^verbatim>\<open>chrome.storage.local\<close> holds under \<^verbatim>\<open>snippet_embeddings_v1\<close>.\<close>

datatype stored = Undefined | NotAnObject | Object cache

text \<open>
  An item \<^verbatim>\<open>{ id, text }\<close> of an \<^verbatim>\<open>ensureEmbeddings\<close> message. Both fields are strings, so
  of the guards of \<^verbatim>\<open>ensureEmbeddings\<close> on an item the two that a typed item can fail are
  kept: the empty id and the blank text.
\<close>

record item =
  item_id :: string
  item_text :: string

text \<open>
  The collaborators of the background worker: the answer of the offscreen embedder to
  a text (the whole round trip of \<^verbatim>\<open>embedText\<close> after its own validation: creating the
  offscreen document, the message, and the check of the response), and
  \<^verbatim>\<open>chrome.runtime.lastError\<close> of a storage read and of a storage write.
\<close>

record world =
  embedder :: "string \<Rightarrow> js_error + vector"
  read_error :: "string option"
  write_error :: "string option"

text \<open>
  The state of the background worker: the stored index, and two logs that make the
  effects observable, the texts sent to the embedder (in order) and the indexes
  written to storage (in order).
\<close>

record bg_state =
  stored_embeddings :: stored
  embed_calls :: "string list"
  storage_writes :: "cache list"

definition loadEmbeddingsIndex :: "world \<Rightarrow> bg_state \<Rightarrow> js_error + cache" where
  "loadEmbeddingsIndex w s =
     (case read_error w of
        Some m \<Rightarrow> Inl (Error (''Storage read failed: '' @ m))
      | None \<Rightarrow>
          (case stored_embeddings s of
             Undefined \<Rightarrow> Inr []
           | NotAnObject \<Rightarrow> Inl (Error ''Embeddings storage must be an object.'')
           | Object c \<Rightarrow> Inr c))"

text \<open>\<^verbatim>\<open>setStorage('local', { [EMBEDDINGS_KEY]: embeddingsIndex })\<close>.\<close>

definition setStorage :: "world \<Rightarrow> cache \<Rightarrow> bg_state \<Rightarrow> js_error + bg_state" where
  "setStorage w c s =
     (case write_error w of
        Some m \<Rightarrow> Inl (Error (''Storage write failed: '' @ m))
      | None \<Rightarrow> Inr (s\<lparr>stored_embeddings := Object c, storage_writes := storage_writes s @ [c]\<rparr>))"

definition embedText :: "world \<Rightarrow> string \<Rightarrow> bg_state \<Rightarrow> (js_error + vector) \<times> bg_state" where
  "embedText w text s =
     (if trim text = [] then (Inl (Error ''Text is required for embedding.''), s)
      else (embedder w text, s\<lparr>embed_calls := embed_calls s @ [text]\<rparr>))"

text \<open>
  The \<^verbatim>\<open>for (const item of items)\<close> loop of \<^verbatim>\<open>ensureEmbeddings\<close>, on the local index and the
  counter \<^verbatim>\<open>updated\<close>. The test \<^verbatim>\<open>if (embeddingsIndex[item.id]) continue\<close> is a test of
  truthiness.
\<close>

fun ensure_loop :: "world \<Rightarrow> item list \<Rightarrow> cache \<times> nat \<Rightarrow> bg_state \<Rightarrow> (js_error + cache \<times> nat) \<times> bg_state" where
  "ensure_loop w [] (idx, updated) s = (Inr (idx, updated), s)"
| "ensure_loop w (it # rest) (idx, updated) s =
     (if item_id it = [] then (Inl (Error ''Embedding item requires an id.''), s)
      else if trim (item_text it) = [] then (Inl (Error ''Embedding item requires text.''), s)
      else if truthy (js_get idx (item_id it)) then ensure_loop w rest (idx, updated) s
      else (case embedText w (item_text it) s of
              (Inl e, s') \<Rightarrow> (Inl e, s')
            | (Inr v, s') \<Rightarrow> ensure_loop w rest (js_set (item_id it) v idx, updated + 1) s'))"

definition ensureEmbeddings :: "world \<Rightarrow> item list \<Rightarrow> bg_state \<Rightarrow> (js_error + nat) \<times> bg_state" where
  "ensureEmbeddings w items s =
     (case loadEmbeddingsIndex w s of
        Inl e \<Rightarrow> (Inl e, s)
      | Inr idx \<Rightarrow>
          (case ensure_loop w items (idx, 0) s of
             (Inl e, s') \<Rightarrow> (Inl e, s')
           | (Inr (idx', updated), s') \<Rightarrow>
               if updated > 0
               then (case setStorage w idx' s' of
                       Inl e \<Rightarrow> (Inl e, s')
                     | Inr s'' \<Rightarrow> (Inr updated, s''))
               else (Inr updated, s')))"

text \<open>
  The vocabulary of the claims. An item is valid when its id is not empty and its
  text is not empty after trimming. The keys of an index are the ids with an entry;
  the keys that read as truthy are these and the names of the prototype members.
  \<open>first_absent seen items\<close> are the items whose id is neither in \<open>seen\<close> nor carried by an
  earlier item of the sequence, and \<open>embedded w new\<close> are the entries that embedding the
  items \<open>new\<close> gives.
\<close>

definition valid_item :: "item \<Rightarrow> bool" where
  "valid_item it = (item_id it \<noteq> [] \<and> trim (item_text it) \<noteq> [])"

definition truthy_keys :: "cache \<Rightarrow> string set" where
  "truthy_keys idx = set (object_keys idx) \<union> set prototype_members"

fun first_absent :: "string set \<Rightarrow> item list \<Rightarrow> item list" where
  "first_absent seen [] = []"
| "first_absent seen (it # rest) =
     (if item_id it \<in> seen then first_absent seen rest
      else it # first_absent (insert (item_id it) seen) rest)"

definition embedded :: "world \<Rightarrow> item list \<Rightarrow> cache" where
  "embedded w new =
     map (\<lambda>it. (item_id it, case embedder w (item_text it) of Inr v \<Rightarrow> v | Inl e \<Rightarrow> [])) new"

text \<open>
  Example data: an embedder that answers a text with the one-component vector of its
  length, three items of which two carry the same id, and a store that already holds
  the vector of \<open>b\<close>; and an empty store with one valid item whose id is the name of a
  prototype member.
\<close>

definition demo_world :: world where
  "demo_world = \<lparr>embedder = (\<lambda>t. Inr [Num (real (length t))]), read_error = None, write_error = None\<rparr>"

definition demo_items :: "item list" where
  "demo_items = [\<lparr>item_id = ''a'', item_text = ''x''\<rparr>, \<lparr>item_id = ''b'', item_text = ''yy''\<rparr>,
                 \<lparr>item_id = ''a'', item_text = ''zzz''\<rparr>]"

definition demo_bg :: bg_state where
  "demo_bg = \<lparr>stored_embeddings = Object [(''b'', [Num 0])], embed_calls = [], storage_writes = []\<rparr>"



section \<open>Popup: module state\<close>

text \<open>
  A stored snippet. Only \<^verbatim>\<open>id\<close> and \<^verbatim>\<open>text\<close> are read by the functions below (\<^verbatim>\<open>url\<close> and
  \<^verbatim>\<open>date\<close> are carried along). A missing id (\<^verbatim>\<open>undefined\<close>) and the empty string are both
  falsy, and both are the empty string here.
\<close>

record snippet =
  snip_id :: string
  snip_text :: string

text \<open>The two storage areas, the keys of \<^verbatim>\<open>STORAGE_LABELS\<close> and of \<^verbatim>\<open>snippetsByArea\<close>.\<close>

datatype area = Local | Sync



text \<open>
  An entry handed to \<^verbatim>\<open>displaySnippets\<close>: \<^verbatim>\<open>{ snippet, area }\<close> for the plain list and
  \<^verbatim>\<open>{ snippet, area, score }\<close> for a ranking.
\<close>

record entry =
  e_snippet :: snippet
  e_area :: area
  e_score :: "jsnum option"

text \<open>What the element \<^verbatim>\<open>snippets-list\<close> shows: an empty-state message or rendered entries.\<close>

datatype display = EmptyState string | Entries "entry list"

text \<open>The runtime messages the popup sends to the background worker.\<close>

datatype runtime_message = EmbedQuery string | EnsureEmbeddings "item list"

text \<open>
  The module variables of the popup (\<^verbatim>\<open>snippetsByArea\<close>, \<^verbatim>\<open>activeArea\<close>, \<^verbatim>\<open>embeddingsIndex\<close>,
  \<^verbatim>\<open>searchToken\<close>), the parts of the page the search writes (the status line with its
  state, the title, the list, the search input), the snippets persisted per area, and
  the log of runtime messages sent. The tab bar and the storage meter are not
  modelled. The values are typed: the guards of the source against a missing page
  element, an unsupported area, a list that is no array or an entry that is no object
  cannot fail here and have no branch.
\<close>

record popup =
  snippetsByArea :: "area \<Rightarrow> snippet list"
  activeArea :: area
  embeddingsIndex :: cache
  searchToken :: nat
  status :: "string \<times> string"
  title :: string
  shown :: display
  search_input :: string
  stored_snippets :: "area \<Rightarrow> snippet list"
  sent :: "runtime_message list"

text \<open>
  The collaborators of the popup: the outcome of the \<^verbatim>\<open>embedQuery\<close> round trip for a query
  (the runtime message and the check of its response; on success the array
  \<^verbatim>\<open>response.vector\<close>), \<^verbatim>\<open>chrome.runtime.lastError\<close> of a write of the snippets of an area, and
  the failure of the storage meter (\<^verbatim>\<open>updateStorageInfo\<close>).
\<close>

record popup_world =
  embed_query :: "string \<Rightarrow> js_error + vector"
  snippets_write_error :: "area \<Rightarrow> string option"
  storage_info_error :: "js_error option"

text \<open>\<^verbatim>\<open>setStatus(message, state)\<close>.\<close>

definition setStatus :: "string \<Rightarrow> string \<Rightarrow> popup \<Rightarrow> popup" where
  "setStatus m st p = p\<lparr>status := (m, st)\<rparr>"

text \<open>
  \<^verbatim>\<open>getAllSnippetItems\<close>: the snippets of every area with their area, in the order of
  \<^verbatim>\<open>Object.keys(snippetsByArea)\<close>: local, then sync.
\<close>

definition getAllSnippetItems :: "popup \<Rightarrow> (snippet \<times> area) list" where
  "getAllSnippetItems p =
     map (\<lambda>sn. (sn, Local)) (snippetsByArea p Local) @ map (\<lambda>sn. (sn, Sync)) (snippetsByArea p Sync)"


section \<open>Popup: pruning the index\<close>

text \<open>The ids of the live snippets: the union of the ids across the areas.\<close>

definition live_ids :: "popup \<Rightarrow> string set" where
  "live_ids p = snip_id ` (set (snippetsByArea p Local) \<union> set (snippetsByArea p Sync))"

text \<open>
  The inner loop of the first part of \<^verbatim>\<open>pruneEmbeddingsIndex\<close>: the ids of the snippets of
  one area are added to the set \<^verbatim>\<open>ids\<close>; a snippet without id throws.
\<close>

fun collect_ids :: "snippet list \<Rightarrow> string set \<Rightarrow> js_error + string set" where
  "collect_ids [] ids = Inr ids"
| "collect_ids (sn # rest) ids =
     (if snip_id sn = [] then Inl (Error ''Snippet entry is invalid.'')
      else collect_ids rest (insert (snip_id sn) ids))"

text \<open>
  The second loop, over the keys that \<^verbatim>\<open>Object.keys(embeddingsIndex)\<close> returned before
  the loop: a key that is not in \<^verbatim>\<open>ids\<close> is deleted from the index and \<^verbatim>\<open>changed\<close> is set.
\<close>

fun prune_loop :: "string set \<Rightarrow> string list \<Rightarrow> cache \<times> bool \<Rightarrow> cache \<times> bool" where
  "prune_loop ids [] acc = acc"
| "prune_loop ids (k # ks) (idx, changed) =
     (if k \<notin> ids then prune_loop ids ks (js_delete k idx, True)
      else prune_loop ids ks (idx, changed))"

text \<open>
  \<^verbatim>\<open>pruneEmbeddingsIndex\<close>: the first loop over the areas in the order of
  \<^verbatim>\<open>Object.keys(snippetsByArea)\<close> (local, then sync), then the second loop on the index; it
  returns \<^verbatim>\<open>changed\<close>.
\<close>

definition pruneEmbeddingsIndex :: "popup \<Rightarrow> js_error + bool \<times> popup" where
  "pruneEmbeddingsIndex p =
     (case collect_ids (snippetsByArea p Local) {} of
        Inl e \<Rightarrow> Inl e
      | Inr ids1 \<Rightarrow>
          (case collect_ids (snippetsByArea p Sync) ids1 of
             Inl e \<Rightarrow> Inl e
           | Inr ids \<Rightarrow>
               (case prune_loop ids (object_keys (embeddingsIndex p)) (embeddingsIndex p, False) of
                  (idx, changed) \<Rightarrow> Inr (changed, p\<lparr>embeddingsIndex := idx\<rparr>))))"

section \<open>Popup: reading a vector and ranking\<close>

text \<open>
  \<^verbatim>\<open>toVector\<close> on what the read of the index gave. An array has no \<^verbatim>\<open>data\<close> and is no
  \<^verbatim>\<open>Float32Array\<close>, so the branch \<^verbatim>\<open>Float32Array.from(output)\<close> is taken, which rounds every
  component to single precision. A prototype member is neither (and has no \<^verbatim>\<open>data\<close>), nor
  is \<^verbatim>\<open>undefined\<close>: the function throws.
\<close>

definition toVector :: "arith \<Rightarrow> js_value \<Rightarrow> js_error + vector" where
  "toVector fp output =
     (case output of
        JsArray v \<Rightarrow> Inr (map (fround fp) v)
      | _ \<Rightarrow> Inl (Error ''Embedding output is missing vector data.''))"

definition getSnippetVector :: "arith \<Rightarrow> popup \<Rightarrow> snippet \<Rightarrow> js_error + vector" where
  "getSnippetVector fp p sn =
     (if trim (snip_text sn) = [] then Inl (Error ''Snippet text is required for embeddings.'')
      else if snip_id sn = [] then Inl (Error ''Snippet ID is required for embeddings.'')
      else (let cached = js_get (embeddingsIndex p) (snip_id sn)
            in if \<not> truthy cached
               then Inl (Error (''Missing embedding for snippet '' @ snip_id sn @ ''.''))
               else toVector fp cached))"

text \<open>The spec's error kind \<open>MissingEmbedding\<close> for an id.\<close>

definition MissingEmbedding :: "string \<Rightarrow> js_error" where
  "MissingEmbedding i = Error (''Missing embedding for snippet '' @ i @ ''.'')"

text \<open>
  \<^verbatim>\<open>Array.prototype.sort(compare)\<close> is a stable sort: \<open>x\<close> stays before \<open>y\<close> unless
  \<open>compare(x, y) > 0\<close> (a comparison that gives \<^verbatim>\<open>NaN\<close> counts as zero). For a comparator
  that orders the elements consistently, every stable sort returns the same array;
  insertion from the right computes it. The comparator of \<^verbatim>\<open>rankSnippets\<close> is consistent
  when no score is \<^verbatim>\<open>NaN\<close>; with such a score JavaScript leaves the order to the
  implementation, and the properties below are stated for finite scores only.
\<close>

fun js_insert :: "('a \<Rightarrow> 'a \<Rightarrow> jsnum) \<Rightarrow> 'a \<Rightarrow> 'a list \<Rightarrow> 'a list" where
  "js_insert cmp x [] = [x]"
| "js_insert cmp x (y # ys) = (if js_positive (cmp x y) then y # js_insert cmp x ys else x # y # ys)"

definition js_sort :: "('a \<Rightarrow> 'a \<Rightarrow> jsnum) \<Rightarrow> 'a list \<Rightarrow> 'a list" where
  "js_sort cmp xs = foldr (js_insert cmp) xs []"

text \<open>
  The score of an entry (\<^verbatim>\<open>a.score\<close>); every entry of a ranking has one, and the missing
  score of another entry would be \<^verbatim>\<open>undefined\<close>, which is \<^verbatim>\<open>NaN\<close> in a subtraction.
\<close>

definition score :: "entry \<Rightarrow> jsnum" where
  "score e = (case e_score e of Some r \<Rightarrow> r | None \<Rightarrow> NaN)"

text \<open>The loop of \<^verbatim>\<open>rankSnippets\<close> that fills \<^verbatim>\<open>scored\<close>; the first throw ends it.\<close>

fun score_loop :: "arith \<Rightarrow> popup \<Rightarrow> vector \<Rightarrow> (snippet \<times> area) list \<Rightarrow> js_error + entry list" where
  "score_loop fp p queryVector [] = Inr []"
| "score_loop fp p queryVector ((sn, ar) # rest) =
     (case getSnippetVector fp p sn of
        Inl e \<Rightarrow> Inl e
      | Inr v \<Rightarrow>
          (case getCosineSimilarity fp (Some queryVector) (Some v) of
             Inl e \<Rightarrow> Inl e
           | Inr sc \<Rightarrow>
               (case score_loop fp p queryVector rest of
                  Inl e \<Rightarrow> Inl e
                | Inr scored \<Rightarrow> Inr (\<lparr>e_snippet = sn, e_area = ar, e_score = Some sc\<rparr> # scored))))"

text \<open>
  The part of \<^verbatim>\<open>rankSnippets\<close> after \<^verbatim>\<open>await embedQuery(query)\<close>, on the list \<^verbatim>\<open>allSnippets\<close> that
  was taken before the \<^verbatim>\<open>await\<close> and on the index as it is afterwards. The comparator is
  \<^verbatim>\<open>(a, b) => b.score - a.score\<close>.
\<close>

definition rank_with :: "arith \<Rightarrow> popup \<Rightarrow> vector \<Rightarrow> (snippet \<times> area) list \<Rightarrow> js_error + entry list" where
  "rank_with fp p queryVector allSnippets =
     (case score_loop fp p queryVector allSnippets of
        Inl e \<Rightarrow> Inl e
      | Inr scored \<Rightarrow> Inr (js_sort (\<lambda>a b. js_sub fp (score b) (score a)) scored))"

text \<open>
  \<^verbatim>\<open>embedQuery\<close>: validates the text, sends the message, checks the response and returns
  \<^verbatim>\<open>Float32Array.from(response.vector)\<close>.
\<close>

definition embedQuery :: "arith \<Rightarrow> popup_world \<Rightarrow> string \<Rightarrow> popup \<Rightarrow> (js_error + vector) \<times> popup" where
  "embedQuery fp w text p =
     (if trim text = [] then (Inl (Error ''Query text is required.''), p)
      else ((case embed_query w text of
               Inl e \<Rightarrow> Inl e
             | Inr v \<Rightarrow> Inr (map (fround fp) v)),
            p\<lparr>sent := sent p @ [EmbedQuery text]\<rparr>))"

definition rankSnippets :: "arith \<Rightarrow> popup_world \<Rightarrow> string \<Rightarrow> popup \<Rightarrow> (js_error + entry list) \<times> popup" where
  "rankSnippets fp w query p =
     (let allSnippets = getAllSnippetItems p
      in if allSnippets = [] then (Inr [], p)
         else (case embedQuery fp w query p of
                 (Inl e, p') \<Rightarrow> (Inl e, p')
               | (Inr queryVector, p') \<Rightarrow> (rank_with fp p' queryVector allSnippets, p')))"

text \<open>
  The vocabulary of the claims about ranking. A snippet is valid when its text is not
  blank and it has an id. \<open>has_entry p i\<close>: the index holds a vector under the id.
  \<open>narrowed fp p i\<close> is that vector as \<^verbatim>\<open>Float32Array.from\<close> returns it. A vector can be
  scored against the query vector when \<^verbatim>\<open>getCosineSimilarity\<close> returns a finite number for
  the two, the \<open>similarity\<close>; and \<open>scored_entry\<close> is the entry the ranking holds for a
  snippet: the snippet with the similarity of the query vector and its narrowed
  vector. \<open>well_formed\<close> are the vectors of the same length with finite components and
  non-zero norms.
\<close>

definition valid_snippet :: "snippet \<Rightarrow> bool" where
  "valid_snippet sn = (trim (snip_text sn) \<noteq> [] \<and> snip_id sn \<noteq> [])"

definition has_entry :: "popup \<Rightarrow> string \<Rightarrow> bool" where
  "has_entry p i = (map_of (embeddingsIndex p) i \<noteq> None)"

definition narrowed :: "arith \<Rightarrow> popup \<Rightarrow> string \<Rightarrow> vector" where
  "narrowed fp p i = map (fround fp) (case map_of (embeddingsIndex p) i of Some v \<Rightarrow> v | None \<Rightarrow> [])"

definition similarity :: "arith \<Rightarrow> vector \<Rightarrow> vector \<Rightarrow> jsnum" where
  "similarity fp q v = (case getCosineSimilarity fp (Some q) (Some v) of Inr s \<Rightarrow> s | Inl e \<Rightarrow> NaN)"

definition scorable :: "arith \<Rightarrow> vector \<Rightarrow> vector \<Rightarrow> bool" where
  "scorable fp q v =
     (case getCosineSimilarity fp (Some q) (Some v) of Inr s \<Rightarrow> isFinite s | Inl e \<Rightarrow> False)"

definition scored_entry :: "arith \<Rightarrow> popup \<Rightarrow> vector \<Rightarrow> snippet \<times> area \<Rightarrow> entry" where
  "scored_entry fp p q x =
     \<lparr>e_snippet = fst x, e_area = snd x,
      e_score = Some (similarity fp q (narrowed fp p (snip_id (fst x))))\<rparr>"

text \<open>An entry whose score is a finite double.\<close>

definition double_score :: "arith \<Rightarrow> entry \<Rightarrow> bool" where
  "double_score fp e = (case score e of Num s \<Rightarrow> is_double fp s | _ \<Rightarrow> False)"

definition well_formed :: "vector \<Rightarrow> vector \<Rightarrow> bool" where
  "well_formed q v = (length q = length v \<and> list_all isFinite q \<and> list_all isFinite v
     \<and> vec_norm q \<noteq> 0 \<and> vec_norm v \<noteq> 0)"

section \<open>Popup: example states\<close>

text \<open>
  A popup with no snippets; one with a single local snippet and an empty index; the
  same with an index that holds the vector of the snippet and one orphan; one whose
  only snippet has the name of a prototype member as id, with an empty index; and
  collaborators whose query embedding is always \<open>[1, 0]\<close>.
\<close>

definition popup0 :: popup where
  "popup0 = \<lparr>snippetsByArea = (\<lambda>a. []), activeArea = Local, embeddingsIndex = [],
              searchToken = 0, status = ('''', ''idle''), title = ''Local snippets'',
              shown = EmptyState ''No local snippets yet. Save a selection to start building your vault.'',
              search_input = '''', stored_snippets = (\<lambda>a. []), sent = []\<rparr>"

definition unembedded :: popup where
  "unembedded = popup0\<lparr>snippetsByArea := (\<lambda>a. case a of Local \<Rightarrow> [\<lparr>snip_id = ''x'', snip_text = ''hello''\<rparr>] | Sync \<Rightarrow> [])\<rparr>"

definition orphaned :: popup where
  "orphaned = unembedded\<lparr>embeddingsIndex := [(''x'', [Num 1]), (''y'', [Num 2])]\<rparr>"


definition rank_world :: popup_world where
  "rank_world = \<lparr>embed_query = (\<lambda>t. Inr [Num 1, Num 0]), snippets_write_error = (\<lambda>a. None),
                 storage_info_error = None\<rparr>"

text \<open>
  The example of the spec: snippets with the cached vectors \<open>A = [1, 0]\<close>, \<open>B = [0, 1]\<close>
  and \<open>C = [0.9, 0.1]\<close>, supplied in the order \<open>A, B, C\<close> (the query vector of
  \<open>rank_world\<close> is \<open>[1, 0]\<close>); and an embedder that answers a query with the zero
  vector, with a popup whose only snippet has a cached vector.
\<close>

definition abc_popup :: popup where
  "abc_popup = popup0
     \<lparr>snippetsByArea := (\<lambda>a. case a of
          Local \<Rightarrow> [\<lparr>snip_id = ''A'', snip_text = ''alpha''\<rparr>, \<lparr>snip_id = ''B'', snip_text = ''beta''\<rparr>]
        | Sync \<Rightarrow> [\<lparr>snip_id = ''C'', snip_text = ''gamma''\<rparr>]),
      embeddingsIndex := [(''A'', [Num 1, Num 0]), (''B'', [Num 0, Num 1]),
                          (''C'', [Num (9 / 10), Num (1 / 10)])]\<rparr>"

definition zero_world :: popup_world where
  "zero_world = rank_world\<lparr>embed_query := (\<lambda>t. Inr [Num 0, Num 0])\<rparr>"

definition zero_popup :: popup where
  "zero_popup = unembedded\<lparr>embeddingsIndex := [(''x'', [Num 1, Num 0])]\<rparr>"

section \<open>Popup: moving a snippet between areas\<close>









section \<open>Offscreen document: the memoized embedder\<close>

text \<open>
  A promise is pending, fulfilled (with the pipeline, an opaque value) or rejected.
  \<^verbatim>\<open>embedderPromise\<close> is \<^verbatim>\<open>null\<close> (\<open>None\<close>) or the promise of an initialization attempt,
  tagged with the number of the attempt so that two promises can be told apart. Any
  promise object is truthy, whatever its state.
\<close>

datatype promise_state = Pending | Fulfilled | Rejected js_error

text \<open>What \<^verbatim>\<open>handleEmbedText\<close> passes to \<^verbatim>\<open>sendResponse\<close>.\<close>

datatype response = ResponseOk vector | ResponseError string

text \<open>
  The state of the offscreen document: \<^verbatim>\<open>embedderPromise\<close>, the number of initialization
  attempts started so far, the texts of the \<^verbatim>\<open>handleEmbedText\<close> calls that await the
  promise, and the responses sent so far, each with the text it answers.
\<close>

record offscreen =
  embedderPromise :: "(nat \<times> promise_state) option"
  init_attempts :: nat
  awaiting :: "string list"
  responses :: "(string \<times> response) list"

text \<open>
  The collaborators of the offscreen document: the failure of one of the synchronous
  checks at the start of the initialization (\<^verbatim>\<open>env\<close>, \<^verbatim>\<open>pipeline\<close>, the ONNX backend), and
  the outcome of running the pipeline on a text (with \<^verbatim>\<open>toVector\<close>).
\<close>

record offscreen_world =
  sync_check :: "js_error option"
  run_pipeline :: "string \<Rightarrow> js_error + vector"

text \<open>
  \<^verbatim>\<open>getEmbedder\<close>: returns the memoized promise when there is one; otherwise starts an
  initialization attempt, whose promise is rejected at once when a synchronous check
  throws and pending otherwise, and memoizes its promise.
\<close>

definition getEmbedder :: "offscreen_world \<Rightarrow> offscreen \<Rightarrow> (nat \<times> promise_state) \<times> offscreen" where
  "getEmbedder w s =
     (case embedderPromise s of
        Some pr \<Rightarrow> (pr, s)
      | None \<Rightarrow>
          (let pr = (init_attempts s + 1,
                     case sync_check w of Some e \<Rightarrow> Rejected e | None \<Rightarrow> Pending)
           in (pr, s\<lparr>embedderPromise := Some pr, init_attempts := init_attempts s + 1\<rparr>)))"

text \<open>The rest of \<^verbatim>\<open>handleEmbedText\<close> once the awaited promise is settled.\<close>

definition respond :: "offscreen_world \<Rightarrow> promise_state \<Rightarrow> string \<Rightarrow> response" where
  "respond w st text =
     (case st of
        Rejected e \<Rightarrow> ResponseError (message e)
      | _ \<Rightarrow> (case run_pipeline w text of
                Inl e \<Rightarrow> ResponseError (message e)
              | Inr v \<Rightarrow> ResponseOk v))"

definition handleEmbedText :: "offscreen_world \<Rightarrow> string \<Rightarrow> offscreen \<Rightarrow> offscreen" where
  "handleEmbedText w text s =
     (if trim text = []
      then s\<lparr>responses := responses s @ [(text, ResponseError ''Embedding requires non-empty text.'')]\<rparr>
      else (case getEmbedder w s of
              ((n, Pending), s1) \<Rightarrow> s1\<lparr>awaiting := awaiting s1 @ [text]\<rparr>
            | ((n, st), s1) \<Rightarrow> s1\<lparr>responses := responses s1 @ [(text, respond w st text)]\<rparr>))"

text \<open>
  The pending initialization settles: it resolves (\<open>None\<close>) or rejects with an error, and
  every call that awaits it goes on. Without a pending promise nothing happens.
\<close>

definition init_settles :: "offscreen_world \<Rightarrow> js_error option \<Rightarrow> offscreen \<Rightarrow> offscreen" where
  "init_settles w outcome s =
     (case embedderPromise s of
        Some (n, Pending) \<Rightarrow>
          (let st = (case outcome of None \<Rightarrow> Fulfilled | Some e \<Rightarrow> Rejected e)
           in s\<lparr>embedderPromise := Some (n, st), awaiting := [],
                responses := responses s @ map (\<lambda>text. (text, respond w st text)) (awaiting s)\<rparr>)
      | _ \<Rightarrow> s)"

text \<open>What happens to the offscreen document, in any order.\<close>

datatype offscreen_event = EmbedText string | InitSettles "js_error option"

fun offscreen_step :: "offscreen_world \<Rightarrow> offscreen \<Rightarrow> offscreen_event \<Rightarrow> offscreen" where
  "offscreen_step w s (EmbedText text) = handleEmbedText w text s"
| "offscreen_step w s (InitSettles outcome) = init_settles w outcome s"

definition offscreen_run :: "offscreen_world \<Rightarrow> offscreen_event list \<Rightarrow> offscreen \<Rightarrow> offscreen" where
  "offscreen_run w es s = foldl (offscreen_step w) s es"

text \<open>The document as loaded (\<^verbatim>\<open>let embedderPromise = null\<close>), and example collaborators.\<close>

definition offscreen_init :: offscreen where
  "offscreen_init = \<lparr>embedderPromise = None, init_attempts = 0, awaiting = [], responses = []\<rparr>"

definition offscreen_demo :: offscreen_world where
  "offscreen_demo = \<lparr>sync_check = None, run_pipeline = (\<lambda>t. Inr [Num 1, Num 0])\<rparr>"

text \<open>
  The invariant of the memoization: no promise and no attempt yet, or the promise of
  the first attempt and exactly one attempt.
\<close>

definition at_most_one_attempt :: "offscreen \<Rightarrow> bool" where
  "at_most_one_attempt s =
     (case embedderPromise s of
        None \<Rightarrow> init_attempts s = 0
      | Some (n, st) \<Rightarrow> n = 1 \<and> init_attempts s = 1)"

section \<open>Popup: the search controller \<^verbatim>\<open>filterSnippets\<close>\<close>



text \<open>
  The loop of \<^verbatim>\<open>ensureMissingEmbeddings\<close> that validates the snippets of an area and
  collects the items whose id does not read as truthy in the index
  (\<^verbatim>\<open>!embeddingsIndex[snippet.id]\<close>); the first invalid snippet throws.
\<close>

fun collect_missing :: "cache \<Rightarrow> snippet list \<Rightarrow> js_error + item list" where
  "collect_missing idx [] = Inr []"
| "collect_missing idx (sn # rest) =
     (if snip_id sn = [] then Inl (Error ''Snippet ID is required for embeddings.'')
      else if trim (snip_text sn) = [] then Inl (Error ''Snippet text is required for embeddings.'')
      else (case collect_missing idx rest of
              Inl e \<Rightarrow> Inl e
            | Inr missing \<Rightarrow>
                Inr (if \<not> truthy (js_get idx (snip_id sn))
                     then \<lparr>item_id = snip_id sn, item_text = snip_text sn\<rparr> # missing
                     else missing)))"

text \<open>
  \<^verbatim>\<open>ensureMissingEmbeddings(area)\<close> up to its first \<^verbatim>\<open>await\<close>: it throws, returns at once
  (nothing to embed), or sets the status, sends the \<^verbatim>\<open>ensureEmbeddings\<close> message and
  waits for the reply.
\<close>

datatype ensure_start = EnsureThrew js_error | EnsureNothing | EnsureSent "item list"

definition ensure_begin :: "area \<Rightarrow> popup \<Rightarrow> ensure_start \<times> popup" where
  "ensure_begin ar p =
     (if snippetsByArea p ar = [] then (EnsureNothing, p)
      else (case collect_missing (embeddingsIndex p) (snippetsByArea p ar) of
              Inl e \<Rightarrow> (EnsureThrew e, p)
            | Inr missing \<Rightarrow>
                if missing = [] then (EnsureNothing, p)
                else (EnsureSent missing,
                      (setStatus ''Preparing embeddings...'' ''loading'' p)
                        \<lparr>sent := sent p @ [EnsureEmbeddings missing]\<rparr>)))"


text \<open>
  A call of \<^verbatim>\<open>filterSnippets\<close> that is suspended at an \<^verbatim>\<open>await\<close>: its query and where it
  waits, with the local variables it needs afterwards: for the reply to the
  \<^verbatim>\<open>ensureEmbeddings\<close> message of an area or for the index read that follows (with
  \<^verbatim>\<open>missing\<close>), or for the query vector inside \<^verbatim>\<open>rankSnippets\<close> (with \<^verbatim>\<open>allSnippets\<close>). The calls
  in flight are kept by their \<^verbatim>\<open>requestId\<close>.
\<close>

datatype pc =
    AwaitEnsureReply area "item list"
  | AwaitIndexLoad area "item list"
  | AwaitQueryVector "(snippet \<times> area) list"

record request =
  rq_query :: string
  rq_pc :: pc

record system =
  ui :: popup
  pending :: "nat \<rightharpoonup> request"

text \<open>
  The \<^verbatim>\<open>catch\<close> block of \<^verbatim>\<open>filterSnippets\<close>: a superseded call returns silently, the
  current one writes the message to the status line (and rethrows).
\<close>

definition fail_request :: "nat \<Rightarrow> js_error \<Rightarrow> system \<Rightarrow> system" where
  "fail_request requestId e sys =
     (let sys1 = sys\<lparr>pending := (pending sys)(requestId := None)\<rparr>
      in if requestId \<noteq> searchToken (ui sys) then sys1
         else sys1\<lparr>ui := setStatus (message e) ''error'' (ui sys)\<rparr>)"

text \<open>The end of the \<^verbatim>\<open>try\<close> block, after \<^verbatim>\<open>await rankSnippets(query)\<close> has returned.\<close>

definition finish_rank :: "nat \<Rightarrow> entry list \<Rightarrow> system \<Rightarrow> system" where
  "finish_rank requestId ranked sys =
     (let sys1 = sys\<lparr>pending := (pending sys)(requestId := None)\<rparr>
      in if requestId \<noteq> searchToken (ui sys) then sys1
         else sys1\<lparr>ui := (setStatus '''' ''idle'' (ui sys))
                  \<lparr>title := ''Search results'',
                   shown := (if ranked = [] then EmptyState ''No matches in local or synced snippets.''
                             else Entries ranked)\<rparr>\<rparr>)"

text \<open>
  From the first token check to the \<^verbatim>\<open>await\<close> inside \<^verbatim>\<open>rankSnippets\<close>: a superseded call
  returns; the current one sets the status and ranks, which returns the empty list at
  once when there is no snippet, throws on a blank query, or sends the query to embed.
\<close>

definition start_rank :: "nat \<Rightarrow> string \<Rightarrow> system \<Rightarrow> system" where
  "start_rank requestId query sys =
     (if requestId \<noteq> searchToken (ui sys) then sys\<lparr>pending := (pending sys)(requestId := None)\<rparr>
      else (let sys1 = sys\<lparr>ui := setStatus ''Searching...'' ''loading'' (ui sys)\<rparr>;
                allSnippets = getAllSnippetItems (ui sys1)
            in if allSnippets = [] then finish_rank requestId [] sys1
               else if trim query = [] then fail_request requestId (Error ''Query text is required.'') sys1
               else sys1\<lparr>ui := (ui sys1)\<lparr>sent := sent (ui sys1) @ [EmbedQuery query]\<rparr>,
                         pending := (pending sys1)(requestId \<mapsto>
                           \<lparr>rq_query = query, rq_pc = AwaitQueryVector allSnippets\<rparr>)\<rparr>))"

text \<open>\<^verbatim>\<open>await ensureMissingEmbeddings('sync')\<close> and what follows it.\<close>

definition begin_sync :: "nat \<Rightarrow> string \<Rightarrow> system \<Rightarrow> system" where
  "begin_sync requestId query sys =
     (case ensure_begin Sync (ui sys) of
        (EnsureThrew e, p) \<Rightarrow> fail_request requestId e (sys\<lparr>ui := p\<rparr>)
      | (EnsureNothing, p) \<Rightarrow> start_rank requestId query (sys\<lparr>ui := p\<rparr>)
      | (EnsureSent missing, p) \<Rightarrow>
          sys\<lparr>ui := p, pending := (pending sys)(requestId \<mapsto>
                 \<lparr>rq_query = query, rq_pc = AwaitEnsureReply Sync missing\<rparr>)\<rparr>)"

text \<open>\<^verbatim>\<open>await ensureMissingEmbeddings('local')\<close> and what follows it.\<close>

definition begin_local :: "nat \<Rightarrow> string \<Rightarrow> system \<Rightarrow> system" where
  "begin_local requestId query sys =
     (case ensure_begin Local (ui sys) of
        (EnsureThrew e, p) \<Rightarrow> fail_request requestId e (sys\<lparr>ui := p\<rparr>)
      | (EnsureNothing, p) \<Rightarrow> begin_sync requestId query (sys\<lparr>ui := p\<rparr>)
      | (EnsureSent missing, p) \<Rightarrow>
          sys\<lparr>ui := p, pending := (pending sys)(requestId \<mapsto>
                 \<lparr>rq_query = query, rq_pc = AwaitEnsureReply Local missing\<rparr>)\<rparr>)"













definition abc_ranked :: "entry list" where
  "abc_ranked =
     [\<lparr>e_snippet = \<lparr>snip_id = ''A'', snip_text = ''alpha''\<rparr>, e_area = Local, e_score = Some (Num 1)\<rparr>,
      \<lparr>e_snippet = \<lparr>snip_id = ''C'', snip_text = ''gamma''\<rparr>, e_area = Sync,
        e_score = Some (Num (cosine [Num 1, Num 0] [Num (9 / 10), Num (1 / 10)]))\<rparr>,
      \<lparr>e_snippet = \<lparr>snip_id = ''B'', snip_text = ''beta''\<rparr>, e_area = Local, e_score = Some (Num 0)\<rparr>]"

section \<open>Properties of the vector math\<close>

lemma fl_zero: "fl fp 0 = Num 0"
  by (simp add: fl_def)

lemma fl_exact: "fl exact z = Num z"
  by (simp add: fl_def exact_def)

lemma cosine_loop_nonfinite:
  "\<exists>p\<in>set ps. \<not> isFinite (fst p) \<or> \<not> isFinite (snd p) \<Longrightarrow>
   cosine_loop fp ps acc = Inl (Error ''Cosine similarity requires finite vector values.'')"
proof (induction fp ps acc rule: cosine_loop.induct)
  case (1 fp acc)
  then show ?case by simp
next
  case (2 fp ai bi rest dot normA normB)
  then show ?case by auto
qed

lemma cosine_loop_zero_left:
  "\<forall>p\<in>set ps. fst p = Num 0 \<and> isFinite (snd p) \<Longrightarrow>
   \<exists>d nb. cosine_loop fp ps (d0, Num 0, nb0) = Inr (d, Num 0, nb)"
proof (induction ps arbitrary: d0 nb0)
  case Nil
  then show ?case by simp
next
  case (Cons p ps)
  obtain x y where p: "p = (x, y)" by (cases p)
  from Cons.prems p have x: "x = Num 0" and y: "isFinite y"
    and rest: "\<forall>p\<in>set ps. fst p = Num 0 \<and> isFinite (snd p)" by simp_all
  from Cons.IH [OF rest] show ?case using p x y by (simp add: fl_zero)
qed

lemma cosine_loop_zero_right:
  "\<forall>p\<in>set ps. isFinite (fst p) \<and> snd p = Num 0 \<Longrightarrow>
   \<exists>d na. cosine_loop fp ps (d0, na0, Num 0) = Inr (d, na, Num 0)"
proof (induction ps arbitrary: d0 na0)
  case Nil
  then show ?case by simp
next
  case (Cons p ps)
  obtain x y where p: "p = (x, y)" by (cases p)
  from Cons.prems p have y: "y = Num 0" and x: "isFinite x"
    and rest: "\<forall>p\<in>set ps. isFinite (fst p) \<and> snd p = Num 0" by simp_all
  from Cons.IH [OF rest] show ?case using p x y by (simp add: fl_zero)
qed

lemma cosine_loop_exact:
  "\<forall>p\<in>set ps. isFinite (fst p) \<and> isFinite (snd p) \<Longrightarrow>
   cosine_loop exact ps (Num d, Num na, Num nb) =
     Inr (Num (d + (\<Sum>(x, y)\<leftarrow>ps. num_val x * num_val y)),
          Num (na + (\<Sum>(x, y)\<leftarrow>ps. num_val x * num_val x)),
          Num (nb + (\<Sum>(x, y)\<leftarrow>ps. num_val y * num_val y)))"
proof (induction ps arbitrary: d na nb)
  case Nil
  then show ?case by simp
next
  case (Cons p ps)
  obtain x y where p: "p = (x, y)" by (cases p)
  from Cons.prems p obtain xr yr where x: "x = Num xr" and y: "y = Num yr"
    by (cases x; cases y) simp_all
  from Cons.prems have rest: "\<forall>p\<in>set ps. isFinite (fst p) \<and> isFinite (snd p)" by simp
  show ?case
    using Cons.IH [OF rest, of "d + xr * yr" "na + xr * xr" "nb + yr * yr"]
    by (simp add: p x y fl_exact algebra_simps)
qed

lemma sum_zip_fst:
  "length a = length b \<Longrightarrow> (\<Sum>(x, y)\<leftarrow>zip a b. f x) = (\<Sum>x\<leftarrow>a. f x)"
  by (induction a b rule: list_induct2) simp_all

lemma sum_zip_snd:
  "length a = length b \<Longrightarrow> (\<Sum>(x, y)\<leftarrow>zip a b. f y) = (\<Sum>y\<leftarrow>b. f y)"
  by (induction a b rule: list_induct2) simp_all

lemma sum_squares_nonneg: "0 \<le> (\<Sum>x\<leftarrow>a. num_val x * num_val x)"
  by (induction a) simp_all

lemma sum_squares_zero:
  "(\<Sum>x\<leftarrow>a. num_val x * num_val x) = 0 \<longleftrightarrow> (\<forall>x\<in>set a. num_val x = 0)"
proof (induction a)
  case Nil
  then show ?case by simp
next
  case (Cons x a)
  have "num_val x * num_val x + (\<Sum>x\<leftarrow>a. num_val x * num_val x) = 0
          \<longleftrightarrow> num_val x * num_val x = 0 \<and> (\<Sum>x\<leftarrow>a. num_val x * num_val x) = 0"
    by (rule add_nonneg_eq_0_iff) (simp_all add: sum_squares_nonneg)
  with Cons show ?case by simp
qed

lemma vec_norm_zero_iff: "vec_norm a = 0 \<longleftrightarrow> (\<Sum>x\<leftarrow>a. num_val x * num_val x) = 0"
  by (simp add: vec_norm_def)

lemma vec_norm_zero_components:
  assumes "vec_norm a = 0" "\<forall>x\<in>set a. isFinite x"
  shows "\<forall>x\<in>set a. x = Num 0"
proof
  fix x assume mem: "x \<in> set a"
  with assms(1) have "num_val x = 0" by (simp add: vec_norm_zero_iff sum_squares_zero)
  moreover from mem assms(2) have "isFinite x" by blast
  ultimately show "x = Num 0" by (cases x) simp_all
qed

lemma nonfinite_in_zip:
  assumes "length a = length b" "\<exists>x\<in>set a \<union> set b. \<not> isFinite x"
  shows "\<exists>p\<in>set (zip a b). \<not> isFinite (fst p) \<or> \<not> isFinite (snd p)"
  using assms
proof (induction a b rule: list_induct2)
  case Nil
  then show ?case by simp
next
  case (Cons x xs y ys)
  then show ?case by auto
qed

lemma finite_in_zip:
  assumes "\<forall>x\<in>set a \<union> set b. isFinite x"
  shows "\<forall>p\<in>set (zip a b). isFinite (fst p) \<and> isFinite (snd p)"
  using assms by (auto dest: set_zip_leftD set_zip_rightD)

lemma getCosineSimilarity_zero_norm:
  assumes len: "length a = length b" and fin: "\<forall>x\<in>set a \<union> set b. isFinite x"
    and zero: "vec_norm a = 0 \<or> vec_norm b = 0"
  shows "getCosineSimilarity fp (Some a) (Some b) = Inl (Error ''Cosine similarity requires non-zero vectors.'')"
proof -
  from zero show ?thesis
  proof
    assume "vec_norm a = 0"
    with fin have "\<forall>x\<in>set a. x = Num 0" using vec_norm_zero_components [of a] by blast
    with fin have "\<forall>p\<in>set (zip a b). fst p = Num 0 \<and> isFinite (snd p)"
      by (auto dest: set_zip_leftD set_zip_rightD)
    from cosine_loop_zero_left [OF this, of fp "Num 0" "Num 0"]
    obtain d nb where "cosine_loop fp (zip a b) (Num 0, Num 0, Num 0) = Inr (d, Num 0, nb)" by blast
    then show ?thesis using len by (simp add: getCosineSimilarity_def)
  next
    assume "vec_norm b = 0"
    with fin have "\<forall>x\<in>set b. x = Num 0" using vec_norm_zero_components [of b] by blast
    with fin have "\<forall>p\<in>set (zip a b). isFinite (fst p) \<and> snd p = Num 0"
      by (auto dest: set_zip_leftD set_zip_rightD)
    from cosine_loop_zero_right [OF this, of fp "Num 0" "Num 0"]
    obtain d na where "cosine_loop fp (zip a b) (Num 0, Num 0, Num 0) = Inr (d, na, Num 0)" by blast
    then show ?thesis using len by (simp add: getCosineSimilarity_def)
  qed
qed

lemma getCosineSimilarity_exact:
  assumes "length a = length b" "\<forall>x\<in>set a \<union> set b. isFinite x"
  shows "getCosineSimilarity exact (Some a) (Some b) =
           (if vec_norm a = 0 \<or> vec_norm b = 0
            then Inl (Error ''Cosine similarity requires non-zero vectors.'')
            else Inr (Num (cosine a b)))"
proof -
  have loop: "cosine_loop exact (zip a b) (Num 0, Num 0, Num 0) =
      Inr (Num (dot_product a b), Num (\<Sum>x\<leftarrow>a. num_val x * num_val x), Num (\<Sum>y\<leftarrow>b. num_val y * num_val y))"
    using cosine_loop_exact [OF finite_in_zip [OF assms(2)], of 0 0 0]
    by (simp add: dot_product_def sum_zip_fst [OF assms(1)] sum_zip_snd [OF assms(1)])
  have na: "\<not> (\<Sum>x\<leftarrow>a. num_val x * num_val x) < 0" using sum_squares_nonneg [of a] by simp
  have nb: "\<not> (\<Sum>x\<leftarrow>b. num_val x * num_val x) < 0" using sum_squares_nonneg [of b] by simp
  show ?thesis
    using assms(1)
    by (simp add: getCosineSimilarity_def loop vec_norm_zero_iff cosine_def vec_norm_def na nb fl_exact)
qed

text \<open>
  C7. \<^verbatim>\<open>getCosineSimilarity\<close> throws an \<open>InvalidVector\<close> error, and so returns no number,
  whenever the two vectors differ in length, a component of either is not finite, or
  the norm of either is zero, whatever the rounding; in particular on \<open>[0,0]\<close>, \<open>[1,1]\<close>
  and on \<open>[1,2]\<close>, \<open>[1,2,3]\<close>.
\<close>

theorem getCosineSimilarity_rejects:
  "(length a \<noteq> length b \<or> (\<exists>x\<in>set a \<union> set b. \<not> isFinite x) \<or> vec_norm a = 0 \<or> vec_norm b = 0
      \<longrightarrow> (\<exists>e. getCosineSimilarity fp (Some a) (Some b) = Inl e \<and> InvalidVector e))
   \<and> (\<exists>e. getCosineSimilarity fp (Some [Num 0, Num 0]) (Some [Num 1, Num 1]) = Inl e \<and> InvalidVector e)
   \<and> (\<exists>e. getCosineSimilarity fp (Some [Num 1, Num 2]) (Some [Num 1, Num 2, Num 3]) = Inl e
          \<and> InvalidVector e)"
proof (intro conjI impI)
  assume bad: "length a \<noteq> length b \<or> (\<exists>x\<in>set a \<union> set b. \<not> isFinite x) \<or> vec_norm a = 0 \<or> vec_norm b = 0"
  show "\<exists>e. getCosineSimilarity fp (Some a) (Some b) = Inl e \<and> InvalidVector e"
  proof (cases "length a = length b")
    case False
    then show ?thesis by (simp add: getCosineSimilarity_def InvalidVector_def)
  next
    case len: True
    show ?thesis
    proof (cases "\<exists>x\<in>set a \<union> set b. \<not> isFinite x")
      case True
      then have "cosine_loop fp (zip a b) (Num 0, Num 0, Num 0) =
          Inl (Error ''Cosine similarity requires finite vector values.'')"
        using cosine_loop_nonfinite [OF nonfinite_in_zip [OF len]] by blast
      then show ?thesis using len by (simp add: getCosineSimilarity_def InvalidVector_def)
    next
      case False
      then have fin: "\<forall>x\<in>set a \<union> set b. isFinite x" by blast
      from bad len False have "vec_norm a = 0 \<or> vec_norm b = 0" by blast
      then show ?thesis
        using getCosineSimilarity_zero_norm [OF len fin] by (simp add: InvalidVector_def)
    qed
  qed
next
  show "\<exists>e. getCosineSimilarity fp (Some [Num 0, Num 0]) (Some [Num 1, Num 1]) = Inl e \<and> InvalidVector e"
    by (simp add: getCosineSimilarity_def InvalidVector_def fl_zero)
next
  show "\<exists>e. getCosineSimilarity fp (Some [Num 1, Num 2]) (Some [Num 1, Num 2, Num 3]) = Inl e
          \<and> InvalidVector e"
    by (simp add: getCosineSimilarity_def InvalidVector_def)
qed

theorem getCosineSimilarity_rejects_witness:
  "(\<forall>fp. getCosineSimilarity fp (Some [Num 3, PosInfinity]) (Some [Num 1, Num 1])
     = Inl (Error ''Cosine similarity requires finite vector values.''))
   \<and> (\<forall>fp. getCosineSimilarity fp (Some [Num 0, Num 0]) (Some [Num 1, Num 1])
     = Inl (Error ''Cosine similarity requires non-zero vectors.''))
   \<and> (\<forall>fp. getCosineSimilarity fp (Some [Num 1, Num 2]) (Some [Num 1, Num 2, Num 3])
     = Inl (Error ''Cosine similarity requires vectors of equal length.''))"
proof (intro conjI allI)
  fix fp
  have "\<exists>e. getCosineSimilarity fp (Some [Num 3, PosInfinity]) (Some [Num 1, Num 1]) = Inl e \<and> InvalidVector e"
    using getCosineSimilarity_rejects [of "[Num 3, PosInfinity]" "[Num 1, Num 1]" fp] by simp
  then show "getCosineSimilarity fp (Some [Num 3, PosInfinity]) (Some [Num 1, Num 1])
     = Inl (Error ''Cosine similarity requires finite vector values.'')"
    by (simp add: getCosineSimilarity_def)
  show "getCosineSimilarity fp (Some [Num 0, Num 0]) (Some [Num 1, Num 1])
     = Inl (Error ''Cosine similarity requires non-zero vectors.'')"
    by (simp add: getCosineSimilarity_def fl_zero)
  show "getCosineSimilarity fp (Some [Num 1, Num 2]) (Some [Num 1, Num 2, Num 3])
     = Inl (Error ''Cosine similarity requires vectors of equal length.'')"
    by (simp add: getCosineSimilarity_def)
qed

section \<open>Examples of trimming\<close>

text \<open>
  Inner white space stays, a blank string becomes empty, and a no-break space (U+00A0)
  in front and a line separator (U+2028) at the end are removed.
\<close>

lemma trim_examples: "trim '' a b  '' = ''a b''" "trim ''  '' = []"
  "trim [CHR 0xC2, CHR 0xA0, CHR ''x'', CHR 0xE2, CHR 0x80, CHR 0xA8] = ''x''"
  by (simp_all add: trim_def strip.simps white_space_def)

section \<open>Properties of plain objects\<close>

lemma truthy_js_get: "truthy (js_get idx k) \<longleftrightarrow> k \<in> truthy_keys idx"
proof (cases "map_of idx k")
  case None
  then have "k \<notin> fst ` set idx" by (simp add: map_of_eq_None_iff)
  with None show ?thesis by (simp add: js_get_def truthy_keys_def object_keys_def)
next
  case (Some v)
  then have "k \<in> fst ` set idx" by (metis map_of_eq_None_iff option.distinct(1))
  with Some show ?thesis by (simp add: js_get_def truthy_keys_def object_keys_def)
qed

lemma update_absent: "k \<notin> fst ` set al \<Longrightarrow> AList.update k v al = al @ [(k, v)]"
  by (induction al) auto

lemma js_set_absent: "k \<notin> truthy_keys idx \<Longrightarrow> js_set k v idx = idx @ [(k, v)]"
  by (simp add: js_set_def truthy_keys_def object_keys_def update_absent)

lemma truthy_keys_append: "truthy_keys (idx @ [(k, v)]) = insert k (truthy_keys idx)"
  by (auto simp: truthy_keys_def object_keys_def)

lemma truthy_keys_js_set: "truthy_keys (js_set k v idx) = insert k (truthy_keys idx)"
  using AList.dom_update [of k v idx] by (auto simp: truthy_keys_def object_keys_def js_set_def)

lemma trim_demo: "trim ''x'' = ''x''" "trim ''yy'' = ''yy''" "trim ''zzz'' = ''zzz''"
  "trim ''hello'' = ''hello''" "trim ''a'' = ''a''" "trim ''b'' = ''b''" "trim ''c'' = ''c''"
  "trim ''q'' = ''q''" "trim ''alpha'' = ''alpha''" "trim ''beta'' = ''beta''" "trim ''gamma'' = ''gamma''"
  by (simp_all add: trim_def strip.simps white_space_def)

section \<open>Properties of \<^verbatim>\<open>ensureEmbeddings\<close>\<close>

lemma first_absent_subseq: "subseq (first_absent seen items) items"
  by (induction items arbitrary: seen) auto

lemma first_absent_ids: "item_id ` set (first_absent seen items) = item_id ` set items - seen"
  by (induction items arbitrary: seen) auto

lemma first_absent_distinct: "distinct (map item_id (first_absent seen items))"
  by (induction items arbitrary: seen) (auto simp: first_absent_ids)

lemma first_absent_find:
  "it \<in> set (first_absent seen items) \<Longrightarrow> find (\<lambda>x. item_id x = item_id it) items = Some it"
proof (induction items arbitrary: seen)
  case Nil
  then show ?case by simp
next
  case (Cons a items)
  show ?case
  proof (cases "item_id a \<in> seen")
    case True
    with Cons.prems have mem: "it \<in> set (first_absent seen items)" by simp
    then have "item_id it \<in> item_id ` set (first_absent seen items)" by blast
    then have "item_id it \<notin> seen" by (simp add: first_absent_ids)
    with True have "item_id a \<noteq> item_id it" by auto
    with Cons.IH [OF mem] show ?thesis by simp
  next
    case False
    with Cons.prems have "it = a \<or> it \<in> set (first_absent (insert (item_id a) seen) items)" by simp
    then show ?thesis
    proof
      assume "it = a" then show ?thesis by simp
    next
      assume mem: "it \<in> set (first_absent (insert (item_id a) seen) items)"
      then have "item_id it \<in> item_id ` set (first_absent (insert (item_id a) seen) items)" by blast
      then have "item_id it \<noteq> item_id a" by (simp add: first_absent_ids)
      with Cons.IH [OF mem] show ?thesis by simp
    qed
  qed
qed

lemma first_absent_length: "length (first_absent seen items) = card (item_id ` set items - seen)"
proof -
  have "length (first_absent seen items) = length (map item_id (first_absent seen items))" by simp
  also have "\<dots> = card (set (map item_id (first_absent seen items)))"
    using first_absent_distinct by (metis distinct_card)
  also have "\<dots> = card (item_id ` set items - seen)" by (simp add: first_absent_ids)
  finally show ?thesis .
qed

lemma ensure_loop_fills:
  assumes "\<forall>it\<in>set items. valid_item it"
    and "\<forall>it\<in>set (first_absent (truthy_keys idx) items). \<exists>v. embedder w (item_text it) = Inr v"
  shows "ensure_loop w items (idx, u) s =
           (Inr (idx @ embedded w (first_absent (truthy_keys idx) items),
                 u + length (first_absent (truthy_keys idx) items)),
            s\<lparr>embed_calls := embed_calls s @ map item_text (first_absent (truthy_keys idx) items)\<rparr>)"
  using assms
proof (induction items arbitrary: idx u s)
  case Nil
  then show ?case by (simp add: embedded_def)
next
  case (Cons a items)
  from Cons.prems(1) have va: "item_id a \<noteq> []" "trim (item_text a) \<noteq> []"
    and rest: "\<forall>it\<in>set items. valid_item it" by (simp_all add: valid_item_def)
  show ?case
  proof (cases "item_id a \<in> truthy_keys idx")
    case True
    with Cons.prems(2) have "\<forall>it\<in>set (first_absent (truthy_keys idx) items). \<exists>v. embedder w (item_text it) = Inr v"
      by simp
    from Cons.IH [OF rest this, of u s] True va show ?thesis by (simp add: truthy_js_get)
  next
    case False
    with Cons.prems(2) obtain v where v: "embedder w (item_text a) = Inr v" by auto
    let ?idx1 = "idx @ [(item_id a, v)]"
    let ?s1 = "s\<lparr>embed_calls := embed_calls s @ [item_text a]\<rparr>"
    have keys: "truthy_keys ?idx1 = insert (item_id a) (truthy_keys idx)" by (rule truthy_keys_append)
    from Cons.prems(2) False
    have "\<forall>it\<in>set (first_absent (truthy_keys ?idx1) items). \<exists>v. embedder w (item_text it) = Inr v"
      by (simp add: keys)
    then have "ensure_loop w items (?idx1, u + 1) ?s1 =
           (Inr (?idx1 @ embedded w (first_absent (truthy_keys ?idx1) items),
                 u + 1 + length (first_absent (truthy_keys ?idx1) items)),
            ?s1\<lparr>embed_calls := embed_calls ?s1 @ map item_text (first_absent (truthy_keys ?idx1) items)\<rparr>)"
      by (rule Cons.IH [OF rest])
    then show ?thesis
      using False va v by (simp add: truthy_js_get embedText_def js_set_absent keys embedded_def)
  qed
qed

lemma load_read_ok: "loadEmbeddingsIndex w s = Inr c \<Longrightarrow> read_error w = None"
  by (auto simp: loadEmbeddingsIndex_def split: option.splits)

text \<open>
  What \<^verbatim>\<open>ensureEmbeddings\<close> does for valid items when the stored index can be read and the
  embedder and the storage write succeed. The items it embeds are those whose id does
  not read as truthy in the index: has no entry \<^emph>\<open>and is not the name of a prototype
  member\<close>. For each such id it calls the embedder once, on the text of the first item
  that carries the id and in the order the items were supplied, appends the returned
  vector under that id, leaves every entry that was present as it was, and returns
  the number of new entries.
\<close>

lemma ensureEmbeddings_fills_unknown:
  assumes valid: "\<forall>it\<in>set items. valid_item it"
    and load: "loadEmbeddingsIndex w s = Inr c"
    and embeds: "\<forall>it\<in>set (first_absent (truthy_keys c) items). \<exists>v. embedder w (item_text it) = Inr v"
    and writes: "write_error w = None"
  shows "\<exists>c' s'. ensureEmbeddings w items s = (Inr (length (first_absent (truthy_keys c) items)), s')
           \<and> loadEmbeddingsIndex w s' = Inr c'
           \<and> embed_calls s' = embed_calls s @ map item_text (first_absent (truthy_keys c) items)
           \<and> c' = c @ embedded w (first_absent (truthy_keys c) items)
           \<and> storage_writes s' = storage_writes s @ (if first_absent (truthy_keys c) items = [] then [] else [c'])
           \<and> subseq (first_absent (truthy_keys c) items) items
           \<and> distinct (map item_id (first_absent (truthy_keys c) items))
           \<and> item_id ` set (first_absent (truthy_keys c) items) = item_id ` set items - truthy_keys c
           \<and> (\<forall>it\<in>set (first_absent (truthy_keys c) items). find (\<lambda>x. item_id x = item_id it) items = Some it)
           \<and> length (first_absent (truthy_keys c) items) = card (item_id ` set items - truthy_keys c)"
proof -
  let ?new = "first_absent (truthy_keys c) items"
  let ?c' = "c @ embedded w ?new"
  let ?s1 = "s\<lparr>embed_calls := embed_calls s @ map item_text ?new\<rparr>"
  let ?s' = "if ?new = [] then ?s1
             else ?s1\<lparr>stored_embeddings := Object ?c', storage_writes := storage_writes ?s1 @ [?c']\<rparr>"
  have loop: "ensure_loop w items (c, 0) s = (Inr (?c', length ?new), ?s1)"
    using ensure_loop_fills [OF valid embeds, of 0 s] by simp
  have run: "ensureEmbeddings w items s = (Inr (length ?new), ?s')"
    by (simp add: ensureEmbeddings_def load loop setStorage_def writes)
  have rd: "read_error w = None" by (rule load_read_ok [OF load])
  have after: "loadEmbeddingsIndex w ?s' = Inr ?c'"
  proof (cases "?new = []")
    case True
    then show ?thesis using load by (simp add: loadEmbeddingsIndex_def embedded_def)
  next
    case False
    then show ?thesis using rd by (simp add: loadEmbeddingsIndex_def)
  qed
  have calls: "embed_calls ?s' = embed_calls s @ map item_text ?new" by simp
  have wr: "storage_writes ?s' = storage_writes s @ (if ?new = [] then [] else [?c'])" by simp
  have firsts: "\<forall>it\<in>set ?new. find (\<lambda>x. item_id x = item_id it) items = Some it"
    using first_absent_find by blast
  show ?thesis
  proof (intro exI conjI)
    show "ensureEmbeddings w items s = (Inr (length ?new), ?s')" by (rule run)
    show "loadEmbeddingsIndex w ?s' = Inr ?c'" by (rule after)
    show "embed_calls ?s' = embed_calls s @ map item_text ?new" by (rule calls)
    show "?c' = c @ embedded w ?new" by (rule refl)
    show "storage_writes ?s' = storage_writes s @ (if ?new = [] then [] else [?c'])" by (rule wr)
    show "subseq ?new items" by (rule first_absent_subseq)
    show "distinct (map item_id ?new)" by (rule first_absent_distinct)
    show "item_id ` set ?new = item_id ` set items - truthy_keys c" by (rule first_absent_ids)
    show "\<forall>it\<in>set ?new. find (\<lambda>x. item_id x = item_id it) items = Some it" by (rule firsts)
    show "length ?new = card (item_id ` set items - truthy_keys c)" by (rule first_absent_length)
  qed
qed

lemma demo_run:
  "ensureEmbeddings demo_world demo_items demo_bg =
     (Inr 1, \<lparr>stored_embeddings = Object [(''b'', [Num 0]), (''a'', [Num 1])],
              embed_calls = [''x''],
              storage_writes = [[(''b'', [Num 0]), (''a'', [Num 1])]]\<rparr>)"
  by (simp add: ensureEmbeddings_def loadEmbeddingsIndex_def demo_items_def trim_demo embedText_def
      demo_world_def demo_bg_def setStorage_def js_get_def js_set_def prototype_members_def)


lemma ensure_loop_completed:
  "ensure_loop w items (idx, u) s = (Inr (idx', u'), s') \<Longrightarrow>
     (\<forall>it\<in>set items. valid_item it \<and> item_id it \<in> truthy_keys idx') \<and> truthy_keys idx \<subseteq> truthy_keys idx'
     \<and> u \<le> u' \<and> (u' = u \<longrightarrow> idx' = idx \<and> s' = s)"
proof (induction items arbitrary: idx u s)
  case Nil
  then show ?case by simp
next
  case (Cons a items)
  from Cons.prems have va: "item_id a \<noteq> []" "trim (item_text a) \<noteq> []"
    by (auto split: if_splits)
  show ?case
  proof (cases "item_id a \<in> truthy_keys idx")
    case True
    with Cons.prems va have "ensure_loop w items (idx, u) s = (Inr (idx', u'), s')"
      by (simp add: truthy_js_get)
    from Cons.IH [OF this] True va show ?thesis by (auto simp: valid_item_def)
  next
    case False
    let ?s1 = "s\<lparr>embed_calls := embed_calls s @ [item_text a]\<rparr>"
    from False Cons.prems va obtain v where v: "embedder w (item_text a) = Inr v"
      and rest: "ensure_loop w items (js_set (item_id a) v idx, u + 1) ?s1 = (Inr (idx', u'), s')"
      by (auto simp: embedText_def truthy_js_get split: sum.splits)
    have "(\<forall>it\<in>set items. valid_item it \<and> item_id it \<in> truthy_keys idx')
       \<and> truthy_keys (js_set (item_id a) v idx) \<subseteq> truthy_keys idx'
       \<and> u + 1 \<le> u' \<and> (u' = u + 1 \<longrightarrow> idx' = js_set (item_id a) v idx \<and> s' = ?s1)"
      by (rule Cons.IH [OF rest])
    then have "(\<forall>it\<in>set items. valid_item it \<and> item_id it \<in> truthy_keys idx')"
      "insert (item_id a) (truthy_keys idx) \<subseteq> truthy_keys idx'" "u + 1 \<le> u'"
      by (simp_all add: truthy_keys_js_set)
    with va show ?thesis by (auto simp: valid_item_def)
  qed
qed

lemma ensure_loop_skips:
  "\<forall>it\<in>set items. valid_item it \<and> item_id it \<in> truthy_keys idx \<Longrightarrow>
   ensure_loop w items (idx, u) s = (Inr (idx, u), s)"
  by (induction items) (auto simp: valid_item_def truthy_js_get)

text \<open>
  C2. \<^verbatim>\<open>ensureEmbeddings\<close> is idempotent: after one completed call, a second call with the
  same items and a readable store returns zero updates and leaves the whole state as
  it is: the stored index, the log of embedder calls (no new call) and the log of
  storage writes (no new write).
\<close>

theorem ensureEmbeddings_idempotent:
  assumes first: "ensureEmbeddings w items s = (Inr n, s')"
    and rd: "read_error w' = None"
  shows "ensureEmbeddings w' items s' = (Inr 0, s')"
proof -
  from first obtain c where load: "loadEmbeddingsIndex w s = Inr c"
    by (auto simp: ensureEmbeddings_def split: sum.splits)
  from first load obtain c' u s1 where loop: "ensure_loop w items (c, 0) s = (Inr (c', u), s1)"
    by (auto simp: ensureEmbeddings_def split: sum.splits prod.splits)
  from ensure_loop_completed [OF loop]
  have all: "\<forall>it\<in>set items. valid_item it \<and> item_id it \<in> truthy_keys c'"
    and same: "u = 0 \<longrightarrow> c' = c \<and> s1 = s" by auto
  have "loadEmbeddingsIndex w' s' = Inr c'"
  proof (cases "u = 0")
    case True
    with first load loop same have "s' = s" by (simp add: ensureEmbeddings_def)
    moreover from load have "stored_embeddings s = Undefined \<and> c = [] \<or> stored_embeddings s = Object c"
      by (auto simp: loadEmbeddingsIndex_def split: option.splits stored.splits)
    ultimately show ?thesis using True same rd by (auto simp: loadEmbeddingsIndex_def)
  next
    case False
    with first load loop have "stored_embeddings s' = Object c'"
      by (auto simp: ensureEmbeddings_def setStorage_def split: sum.splits option.splits)
    with rd show ?thesis by (simp add: loadEmbeddingsIndex_def)
  qed
  then show ?thesis
    by (simp add: ensureEmbeddings_def ensure_loop_skips [OF all])
qed

theorem ensureEmbeddings_idempotent_witness:
  "ensureEmbeddings demo_world demo_items (snd (ensureEmbeddings demo_world demo_items demo_bg))
     = (Inr 0, snd (ensureEmbeddings demo_world demo_items demo_bg))"
proof -
  have "read_error demo_world = None" by (simp add: demo_world_def)
  from ensureEmbeddings_idempotent [OF demo_run this] show ?thesis by (simp add: demo_run)
qed

section \<open>Properties of pruning\<close>

lemma collect_ids_result:
  "collect_ids xs ids =
     (if \<exists>sn\<in>set xs. snip_id sn = [] then Inl (Error ''Snippet entry is invalid.'')
      else Inr (ids \<union> snip_id ` set xs))"
  by (induction xs arbitrary: ids) auto

lemma prune_loop_result:
  "prune_loop ids ks (idx, changed) =
     (filter (\<lambda>kv. fst kv \<in> ids \<or> fst kv \<notin> set ks) idx, changed \<or> (\<exists>k\<in>set ks. k \<notin> ids))"
proof (induction ks arbitrary: idx changed)
  case Nil
  then show ?case by simp
next
  case (Cons k ks)
  show ?case
  proof (cases "k \<in> ids")
    case True
    have "filter (\<lambda>kv. fst kv \<in> ids \<or> fst kv \<notin> set ks) idx
        = filter (\<lambda>kv. fst kv \<in> ids \<or> fst kv \<notin> set (k # ks)) idx"
      using True by (intro filter_cong) auto
    with Cons [of idx changed] True show ?thesis by simp
  next
    case False
    have "filter (\<lambda>kv. fst kv \<in> ids \<or> fst kv \<notin> set ks) (filter (\<lambda>kv. k \<noteq> fst kv) idx)
        = filter (\<lambda>kv. fst kv \<in> ids \<or> fst kv \<notin> set (k # ks)) idx"
      using False by (auto intro: filter_cong)
    moreover have "js_delete k idx = filter (\<lambda>kv. k \<noteq> fst kv) idx"
      by (simp add: js_delete_def AList.delete_eq case_prod_unfold)
    ultimately show ?thesis using Cons [of "js_delete k idx" True] False by simp
  qed
qed

lemma map_of_filter_key:
  "P k \<Longrightarrow> map_of (filter (\<lambda>kv. P (fst kv)) al) k = map_of al k"
  by (induction al) auto

lemma pruneEmbeddingsIndex_result:
  assumes "\<forall>sn \<in> set (snippetsByArea p Local @ snippetsByArea p Sync). snip_id sn \<noteq> []"
  shows "pruneEmbeddingsIndex p =
           Inr (\<exists>k\<in>set (object_keys (embeddingsIndex p)). k \<notin> live_ids p,
                p\<lparr>embeddingsIndex := filter (\<lambda>kv. fst kv \<in> live_ids p) (embeddingsIndex p)\<rparr>)"
proof -
  have l: "collect_ids (snippetsByArea p Local) {} = Inr (snip_id ` set (snippetsByArea p Local))"
    using assms by (simp add: collect_ids_result)
  have s: "collect_ids (snippetsByArea p Sync) (snip_id ` set (snippetsByArea p Local)) = Inr (live_ids p)"
    using assms by (simp add: collect_ids_result live_ids_def image_Un)
  have f: "filter (\<lambda>kv. fst kv \<in> live_ids p \<or> fst kv \<notin> set (object_keys (embeddingsIndex p))) (embeddingsIndex p)
      = filter (\<lambda>kv. fst kv \<in> live_ids p) (embeddingsIndex p)"
    by (intro filter_cong) (auto simp: object_keys_def)
  show ?thesis
    by (simp add: pruneEmbeddingsIndex_def l s prune_loop_result f)
qed

lemma pruneEmbeddingsIndex_throws:
  assumes "\<exists>sn \<in> set (snippetsByArea p Local @ snippetsByArea p Sync). snip_id sn = []"
  shows "pruneEmbeddingsIndex p = Inl (Error ''Snippet entry is invalid.'')"
  using assms by (auto simp: pruneEmbeddingsIndex_def collect_ids_result)

text \<open>
  C3, as the claim states it, fails: after a prune pass the ids of the index need not
  be the union of the ids across the areas. A live snippet that has no vector yet
  stays without one.
\<close>

theorem prune_not_union_counterexample:
  "pruneEmbeddingsIndex unembedded = Inr (False, unembedded)
   \<and> object_keys (embeddingsIndex unembedded) = [] \<and> live_ids unembedded = {''x''}"
  by (simp add: pruneEmbeddingsIndex_def unembedded_def popup0_def live_ids_def object_keys_def)

text \<open>
  C3, amended. When every snippet has an id, \<^verbatim>\<open>pruneEmbeddingsIndex\<close> returns, and afterwards
  the index holds exactly the previous entries whose id is live, in their order and
  with their vectors: its keys are the previous keys that are live, so they are a
  subset of the union of the ids across the areas (no orphans), and equal to it
  exactly when every live id had an entry before. The function returns true if and
  only if an entry was deleted.
\<close>

theorem pruneEmbeddingsIndex_intersection:
  assumes "\<forall>sn \<in> set (snippetsByArea p Local @ snippetsByArea p Sync). snip_id sn \<noteq> []"
  shows "\<exists>changed p'. pruneEmbeddingsIndex p = Inr (changed, p')
     \<and> embeddingsIndex p' = filter (\<lambda>kv. fst kv \<in> live_ids p) (embeddingsIndex p)
     \<and> set (object_keys (embeddingsIndex p')) = set (object_keys (embeddingsIndex p)) \<inter> live_ids p
     \<and> (\<forall>k \<in> live_ids p. map_of (embeddingsIndex p') k = map_of (embeddingsIndex p) k)
     \<and> live_ids p' = live_ids p
     \<and> set (object_keys (embeddingsIndex p')) \<subseteq> live_ids p'
     \<and> (set (object_keys (embeddingsIndex p')) = live_ids p'
          \<longleftrightarrow> live_ids p \<subseteq> set (object_keys (embeddingsIndex p)))
     \<and> (changed \<longleftrightarrow> (\<exists>k. k \<in> set (object_keys (embeddingsIndex p))
                          \<and> k \<notin> set (object_keys (embeddingsIndex p'))))"
proof -
  let ?idx' = "filter (\<lambda>kv. fst kv \<in> live_ids p) (embeddingsIndex p)"
  let ?p' = "p\<lparr>embeddingsIndex := ?idx'\<rparr>"
  let ?changed = "\<exists>k\<in>set (object_keys (embeddingsIndex p)). k \<notin> live_ids p"
  have run: "pruneEmbeddingsIndex p = Inr (?changed, ?p')"
    by (rule pruneEmbeddingsIndex_result [OF assms])
  have idx: "embeddingsIndex ?p' = ?idx'" by simp
  have live: "live_ids ?p' = live_ids p" by (simp add: live_ids_def)
  have d: "set (object_keys (embeddingsIndex ?p')) = set (object_keys (embeddingsIndex p)) \<inter> live_ids p"
    by (auto simp: object_keys_def)
  have vals: "\<forall>k \<in> live_ids p. map_of (embeddingsIndex ?p') k = map_of (embeddingsIndex p) k"
    using map_of_filter_key [of "\<lambda>k. k \<in> live_ids p" _ "embeddingsIndex p"] by simp
  have sub: "set (object_keys (embeddingsIndex ?p')) \<subseteq> live_ids ?p'" unfolding live d by blast
  have eq: "set (object_keys (embeddingsIndex ?p')) = live_ids ?p'
      \<longleftrightarrow> live_ids p \<subseteq> set (object_keys (embeddingsIndex p))"
    unfolding live d by blast
  have ch: "?changed \<longleftrightarrow> (\<exists>k. k \<in> set (object_keys (embeddingsIndex p))
                               \<and> k \<notin> set (object_keys (embeddingsIndex ?p')))"
    unfolding d by blast
  show ?thesis
  proof (intro exI conjI)
    show "pruneEmbeddingsIndex p = Inr (?changed, ?p')" by (rule run)
  qed (rule idx d vals live sub eq ch)+
qed

theorem pruneEmbeddingsIndex_intersection_witness:
  "pruneEmbeddingsIndex orphaned = Inr (True, orphaned\<lparr>embeddingsIndex := [(''x'', [Num 1])]\<rparr>)
   \<and> set (object_keys (embeddingsIndex orphaned)) \<inter> live_ids orphaned = {''x''}"
proof -
  have ids: "\<forall>sn \<in> set (snippetsByArea orphaned Local @ snippetsByArea orphaned Sync). snip_id sn \<noteq> []"
    by (simp add: orphaned_def unembedded_def popup0_def)
  have live: "live_ids orphaned = {''x''}"
    by (simp add: live_ids_def orphaned_def unembedded_def popup0_def)
  have idx: "embeddingsIndex orphaned = [(''x'', [Num 1]), (''y'', [Num 2])]"
    by (simp add: orphaned_def)
  have "\<exists>changed p'. pruneEmbeddingsIndex orphaned = Inr (changed, p')
      \<and> embeddingsIndex p' = filter (\<lambda>kv. fst kv \<in> live_ids orphaned) (embeddingsIndex orphaned)
      \<and> set (object_keys (embeddingsIndex p')) = set (object_keys (embeddingsIndex orphaned)) \<inter> live_ids orphaned"
    using pruneEmbeddingsIndex_intersection [OF ids]
    apply (elim exE conjE)
    apply (intro exI conjI)
      apply assumption+
    done
  then obtain changed p' where a: "pruneEmbeddingsIndex orphaned = Inr (changed, p')"
    and b: "embeddingsIndex p' = filter (\<lambda>kv. fst kv \<in> live_ids orphaned) (embeddingsIndex orphaned)"
    and c: "set (object_keys (embeddingsIndex p')) = set (object_keys (embeddingsIndex orphaned)) \<inter> live_ids orphaned"
    by blast
  from b have b': "embeddingsIndex p' = [(''x'', [Num 1])]" by (simp add: live idx)
  have run: "pruneEmbeddingsIndex orphaned = Inr (True, orphaned\<lparr>embeddingsIndex := [(''x'', [Num 1])]\<rparr>)"
    by (simp add: pruneEmbeddingsIndex_result [OF ids] live idx object_keys_def)
  from c b' have "set (object_keys (embeddingsIndex orphaned)) \<inter> live_ids orphaned = {''x''}"
    by (simp add: object_keys_def)
  with run show ?thesis by simp
qed

section \<open>Properties of reading a vector and of ranking nothing\<close>

lemma rankSnippets_unfold:
  "rankSnippets fp w query p =
     (if getAllSnippetItems p = [] then (Inr [], p)
      else (case embedQuery fp w query p of
              (Inl e, p') \<Rightarrow> (Inl e, p')
            | (Inr queryVector, p') \<Rightarrow> (rank_with fp p' queryVector (getAllSnippetItems p), p')))"
  by (simp add: rankSnippets_def Let_def)

lemma getSnippetVector_index_only:
  "embeddingsIndex p' = embeddingsIndex p \<Longrightarrow> getSnippetVector fp p' sn = getSnippetVector fp p sn"
  by (simp add: getSnippetVector_def)

lemma getSnippetVector_entry:
  "valid_snippet sn \<Longrightarrow> has_entry p (snip_id sn) \<Longrightarrow>
   getSnippetVector fp p sn = Inr (narrowed fp p (snip_id sn))"
  by (auto simp: getSnippetVector_def valid_snippet_def has_entry_def narrowed_def js_get_def toVector_def)

lemma getSnippetVector_no_entry:
  "\<not> has_entry p (snip_id sn) \<Longrightarrow> \<exists>e. getSnippetVector fp p sn = Inl e"
  by (auto simp: getSnippetVector_def has_entry_def js_get_def toVector_def Let_def)

lemma getSnippetVector_unknown:
  "valid_snippet sn \<Longrightarrow> \<not> has_entry p (snip_id sn) \<Longrightarrow> snip_id sn \<notin> set prototype_members \<Longrightarrow>
   getSnippetVector fp p sn = Inl (MissingEmbedding (snip_id sn))"
  by (auto simp: getSnippetVector_def has_entry_def js_get_def valid_snippet_def MissingEmbedding_def)

lemma getSnippetVector_prototype:
  "valid_snippet sn \<Longrightarrow> \<not> has_entry p (snip_id sn) \<Longrightarrow> snip_id sn \<in> set prototype_members \<Longrightarrow>
   getSnippetVector fp p sn = Inl (Error ''Embedding output is missing vector data.'')"
  by (auto simp: getSnippetVector_def has_entry_def js_get_def valid_snippet_def toVector_def)

lemma score_loop_missing_fails:
  "(sn, ar) \<in> set items \<Longrightarrow> \<not> has_entry p (snip_id sn) \<Longrightarrow> \<exists>e. score_loop fp p qv items = Inl e"
proof (induction items)
  case Nil
  then show ?case by simp
next
  case (Cons x items)
  obtain sn' ar' where x: "x = (sn', ar')" by (cases x)
  show ?case
  proof (cases "x = (sn, ar)")
    case True
    from getSnippetVector_no_entry [OF Cons.prems(2), of fp] obtain e
      where "getSnippetVector fp p sn = Inl e" by blast
    with True x show ?thesis by auto
  next
    case False
    with Cons obtain e where "score_loop fp p qv items = Inl e" by auto
    then show ?thesis using x by (auto split: sum.splits)
  qed
qed

lemma rankSnippets_sent:
  "sent (snd (rankSnippets fp w q p)) = sent p \<or> sent (snd (rankSnippets fp w q p)) = sent p @ [EmbedQuery q]"
  by (auto simp: rankSnippets_unfold embedQuery_def split: sum.splits prod.splits)

lemma rankSnippets_index: "embeddingsIndex (snd (rankSnippets fp w q p)) = embeddingsIndex p"
  by (auto simp: rankSnippets_unfold embedQuery_def split: sum.splits prod.splits)

lemma rankSnippets_missing_fails:
  assumes mem: "(sn, ar) \<in> set (getAllSnippetItems p)" and none: "\<not> has_entry p (snip_id sn)"
  shows "\<exists>e. fst (rankSnippets fp w q p) = Inl e"
proof -
  from mem have ne: "getAllSnippetItems p \<noteq> []" by auto
  show ?thesis
  proof (cases "embedQuery fp w q p")
    case (Pair r p1)
    show ?thesis
    proof (cases r)
      case (Inl e)
      with Pair ne show ?thesis by (simp add: rankSnippets_unfold)
    next
      case (Inr qv)
      from Pair have idx: "embeddingsIndex p1 = embeddingsIndex p"
        by (auto simp: embedQuery_def split: if_splits)
      then have "\<not> has_entry p1 (snip_id sn)" using none by (simp add: has_entry_def)
      from score_loop_missing_fails [OF mem this] obtain e
        where "score_loop fp p1 qv (getAllSnippetItems p) = Inl e" by blast
      with Pair Inr ne show ?thesis by (simp add: rankSnippets_unfold rank_with_def)
    qed
  qed
qed

lemma score_loop_first_missing:
  assumes "\<forall>x \<in> set items. valid_snippet (fst x) \<and> snip_id (fst x) \<notin> set prototype_members
             \<and> (has_entry p (snip_id (fst x)) \<longrightarrow> scorable fp qv (narrowed fp p (snip_id (fst x))))"
    and "\<exists>x \<in> set items. \<not> has_entry p (snip_id (fst x))"
  shows "\<exists>i. score_loop fp p qv items = Inl (MissingEmbedding i) \<and> \<not> has_entry p i"
  using assms
proof (induction items)
  case Nil
  then show ?case by simp
next
  case (Cons x items)
  obtain sn ar where x: "x = (sn, ar)" by (cases x)
  from Cons.prems(1) x have v: "valid_snippet sn" and np: "snip_id sn \<notin> set prototype_members"
    by simp_all
  show ?case
  proof (cases "has_entry p (snip_id sn)")
    case False
    from getSnippetVector_unknown [OF v False np, of fp] x False show ?thesis by auto
  next
    case True
    with Cons.prems(1) x have "scorable fp qv (narrowed fp p (snip_id sn))" by simp
    then obtain s where cs: "getCosineSimilarity fp (Some qv) (Some (narrowed fp p (snip_id sn))) = Inr s"
      by (auto simp: scorable_def split: sum.splits)
    from Cons.prems(2) True x have "\<exists>x \<in> set items. \<not> has_entry p (snip_id (fst x))" by auto
    with Cons.IH Cons.prems(1) obtain i where "score_loop fp p qv items = Inl (MissingEmbedding i)"
      and "\<not> has_entry p i" by auto
    then show ?thesis using x getSnippetVector_entry [OF v True, of fp] cs by auto
  qed
qed

text \<open>
  What reading a vector does for a snippet whose id has no entry in the index:
  \<^verbatim>\<open>getSnippetVector\<close> throws and never returns a vector. For a valid snippet whose id is
  not the name of a prototype member the error is \<open>MissingEmbedding\<close> of its id. The
  result depends on the in-memory index alone. Ranking a set that contains the snippet
  throws too, the only message that it may send is the embedding of the query, and the
  index is left as it was; when the query embeds and all snippets are valid, have no
  prototype member's name as id and can be scored if they have an entry, the error is
  \<open>MissingEmbedding\<close> of an id without entry.
\<close>

lemma getSnippetVector_missing:
  assumes "\<not> has_entry p (snip_id sn)"
  shows "(\<exists>e. getSnippetVector fp p sn = Inl e)
     \<and> (valid_snippet sn \<and> snip_id sn \<notin> set prototype_members
          \<longrightarrow> getSnippetVector fp p sn = Inl (MissingEmbedding (snip_id sn)))
     \<and> (\<forall>p'. embeddingsIndex p' = embeddingsIndex p \<longrightarrow> getSnippetVector fp p' sn = getSnippetVector fp p sn)
     \<and> ((sn, ar) \<in> set (getAllSnippetItems p) \<longrightarrow>
          (\<exists>e. fst (rankSnippets fp w q p) = Inl e)
          \<and> (sent (snd (rankSnippets fp w q p)) = sent p
              \<or> sent (snd (rankSnippets fp w q p)) = sent p @ [EmbedQuery q])
          \<and> embeddingsIndex (snd (rankSnippets fp w q p)) = embeddingsIndex p)
     \<and> ((sn, ar) \<in> set (getAllSnippetItems p) \<and> trim q \<noteq> [] \<and> embed_query w q = Inr qv
          \<and> (\<forall>x \<in> set (getAllSnippetItems p). valid_snippet (fst x)
                \<and> snip_id (fst x) \<notin> set prototype_members
                \<and> (has_entry p (snip_id (fst x))
                     \<longrightarrow> scorable fp (map (fround fp) qv) (narrowed fp p (snip_id (fst x)))))
          \<longrightarrow> (\<exists>i. fst (rankSnippets fp w q p) = Inl (MissingEmbedding i) \<and> \<not> has_entry p i))"
proof (intro conjI impI allI)
  assume h: "(sn, ar) \<in> set (getAllSnippetItems p) \<and> trim q \<noteq> [] \<and> embed_query w q = Inr qv
          \<and> (\<forall>x \<in> set (getAllSnippetItems p). valid_snippet (fst x)
                \<and> snip_id (fst x) \<notin> set prototype_members
                \<and> (has_entry p (snip_id (fst x))
                     \<longrightarrow> scorable fp (map (fround fp) qv) (narrowed fp p (snip_id (fst x)))))"
  let ?p1 = "p\<lparr>sent := sent p @ [EmbedQuery q]\<rparr>"
  let ?qv = "map (fround fp) qv"
  from h have ne: "getAllSnippetItems p \<noteq> []" by auto
  have he: "has_entry ?p1 = has_entry p" by (rule ext) (simp add: has_entry_def)
  have nr: "narrowed fp ?p1 = narrowed fp p" by (rule ext) (simp add: narrowed_def)
  from h assms have ex: "\<exists>x \<in> set (getAllSnippetItems p). \<not> has_entry ?p1 (snip_id (fst x))"
    unfolding he by force
  from h have all: "\<forall>x \<in> set (getAllSnippetItems p). valid_snippet (fst x)
             \<and> snip_id (fst x) \<notin> set prototype_members
             \<and> (has_entry ?p1 (snip_id (fst x)) \<longrightarrow> scorable fp ?qv (narrowed fp ?p1 (snip_id (fst x))))"
    unfolding he nr by simp
  from score_loop_first_missing [OF all ex] obtain i
    where "score_loop fp ?p1 ?qv (getAllSnippetItems p) = Inl (MissingEmbedding i)" "\<not> has_entry p i"
    unfolding he by auto
  then show "\<exists>i. fst (rankSnippets fp w q p) = Inl (MissingEmbedding i) \<and> \<not> has_entry p i"
    using h ne by (auto simp: rankSnippets_unfold embedQuery_def rank_with_def)
next
  show "\<exists>e. getSnippetVector fp p sn = Inl e"
    using assms by (rule getSnippetVector_no_entry)
  show "getSnippetVector fp p sn = Inl (MissingEmbedding (snip_id sn))"
    if "valid_snippet sn \<and> snip_id sn \<notin> set prototype_members"
    using assms that getSnippetVector_unknown by blast
  show "getSnippetVector fp p' sn = getSnippetVector fp p sn" if "embeddingsIndex p' = embeddingsIndex p" for p'
    using that by (rule getSnippetVector_index_only)
  show "\<exists>e. fst (rankSnippets fp w q p) = Inl e" if mem: "(sn, ar) \<in> set (getAllSnippetItems p)"
    using mem assms by (rule rankSnippets_missing_fails)
  show "sent (snd (rankSnippets fp w q p)) = sent p \<or> sent (snd (rankSnippets fp w q p)) = sent p @ [EmbedQuery q]"
    by (rule rankSnippets_sent)
  show "embeddingsIndex (snd (rankSnippets fp w q p)) = embeddingsIndex p"
    by (rule rankSnippets_index)
qed


text \<open>
  C10. When no area holds a snippet, \<^verbatim>\<open>rankSnippets\<close> returns the empty list and leaves
  the state as it is: no message is sent, so the query is never embedded.
\<close>

theorem rankSnippets_empty:
  assumes "snippetsByArea p Local = []" and "snippetsByArea p Sync = []"
  shows "rankSnippets fp w q p = (Inr [], p)"
  using assms by (simp add: rankSnippets_unfold getAllSnippetItems_def)

theorem rankSnippets_empty_witness:
  "(\<forall>fp. rankSnippets fp rank_world ''q'' popup0 = (Inr [], popup0)) \<and> sent popup0 = []"
proof -
  have "snippetsByArea popup0 Local = []" "snippetsByArea popup0 Sync = []"
    by (simp_all add: popup0_def)
  from rankSnippets_empty [OF this] show ?thesis by (simp add: popup0_def)
qed

section \<open>Properties of ranking\<close>

lemma fround_exact: "fround exact x = x"
  by (cases x) (simp_all add: exact_def)

lemma map_fround_exact: "map (fround exact) v = v"
  by (induction v) (simp_all add: fround_exact)

lemma isFinite_Num: "isFinite x \<Longrightarrow> \<exists>r. x = Num r"
  by (cases x) simp_all

lemma double_score_Num: "double_score fp e \<Longrightarrow> \<exists>s. score e = Num s \<and> is_double fp s"
  by (cases "score e") (simp_all add: double_score_def)

lemma js_div_double: "js_div fp x y = Num s \<Longrightarrow> is_double fp s"
  by (cases x; cases y) (auto simp: is_double_def fl_def split: if_splits)

lemma getCosineSimilarity_double:
  "getCosineSimilarity fp a b = Inr (Num s) \<Longrightarrow> is_double fp s"
  by (auto simp: getCosineSimilarity_def js_div_double split: option.splits if_splits sum.splits prod.splits)

lemma js_sub_positive:
  assumes "subtraction_sign fp" "is_double fp x" "is_double fp y"
  shows "js_positive (js_sub fp (Num x) (Num y)) \<longleftrightarrow> y < x"
  using assms by (simp add: js_sub_def subtraction_sign_def)

lemma js_insert_insort_key:
  assumes sign: "subtraction_sign fp" and x: "double_score fp x" and ys: "\<forall>y\<in>set ys. double_score fp y"
  shows "js_insert (\<lambda>a b. js_sub fp (score b) (score a)) x ys = insort_key (\<lambda>e. - num_val (score e)) x ys"
  using ys
proof (induction ys)
  case Nil
  then show ?case by simp
next
  case (Cons y ys)
  from double_score_Num [OF x] obtain sx where sx: "score x = Num sx" "is_double fp sx" by blast
  from Cons.prems have "double_score fp y" by simp
  from double_score_Num [OF this] obtain sy where sy: "score y = Num sy" "is_double fp sy" by blast
  have "js_positive (js_sub fp (score y) (score x)) \<longleftrightarrow> sx < sy"
    unfolding sx sy by (rule js_sub_positive [OF sign sy(2) sx(2)])
  moreover from Cons have "js_insert (\<lambda>a b. js_sub fp (score b) (score a)) x ys
      = insort_key (\<lambda>e. - num_val (score e)) x ys" by simp
  ultimately show ?case using sx sy by auto
qed

lemma js_sort_sort_key:
  assumes sign: "subtraction_sign fp" and xs: "\<forall>x\<in>set xs. double_score fp x"
  shows "js_sort (\<lambda>a b. js_sub fp (score b) (score a)) xs = sort_key (\<lambda>e. - num_val (score e)) xs"
  using xs
proof (induction xs)
  case Nil
  then show ?case by (simp add: js_sort_def)
next
  case (Cons x xs)
  then have ih: "js_sort (\<lambda>a b. js_sub fp (score b) (score a)) xs = sort_key (\<lambda>e. - num_val (score e)) xs"
    by simp
  from Cons.prems have x: "double_score fp x"
    and rest: "\<forall>y\<in>set (sort_key (\<lambda>e. - num_val (score e)) xs). double_score fp y" by simp_all
  have "js_sort (\<lambda>a b. js_sub fp (score b) (score a)) (x # xs)
      = js_insert (\<lambda>a b. js_sub fp (score b) (score a)) x (js_sort (\<lambda>a b. js_sub fp (score b) (score a)) xs)"
    by (simp add: js_sort_def)
  also have "\<dots> = insort_key (\<lambda>e. - num_val (score e)) x (sort_key (\<lambda>e. - num_val (score e)) xs)"
    unfolding ih by (rule js_insert_insort_key [OF sign x rest])
  finally show ?case by simp
qed

lemma score_loop_scores:
  assumes "\<forall>x \<in> set items. valid_snippet (fst x) \<and> has_entry p (snip_id (fst x))
             \<and> scorable fp qv (narrowed fp p (snip_id (fst x)))"
  shows "score_loop fp p qv items = Inr (map (scored_entry fp p qv) items)"
  using assms
proof (induction items)
  case Nil
  then show ?case by simp
next
  case (Cons x items)
  obtain sn ar where x: "x = (sn, ar)" by (cases x)
  from Cons.prems x have v: "valid_snippet sn" and he: "has_entry p (snip_id sn)"
    and sc: "scorable fp qv (narrowed fp p (snip_id sn))" by simp_all
  from sc obtain s where cs: "getCosineSimilarity fp (Some qv) (Some (narrowed fp p (snip_id sn))) = Inr s"
    by (auto simp: scorable_def split: sum.splits)
  have rest: "score_loop fp p qv items = Inr (map (scored_entry fp p qv) items)"
    using Cons by simp
  show ?case
    using x getSnippetVector_entry [OF v he, of fp] cs rest by (simp add: scored_entry_def similarity_def)
qed

lemma scored_entry_double:
  assumes "scorable fp qv (narrowed fp p (snip_id (fst x)))"
  shows "double_score fp (scored_entry fp p qv x)"
proof -
  from assms obtain r where r: "getCosineSimilarity fp (Some qv) (Some (narrowed fp p (snip_id (fst x)))) = Inr r"
    and fin: "isFinite r"
    by (auto simp: scorable_def split: sum.splits)
  from isFinite_Num [OF fin] obtain s where "r = Num s" by blast
  with r have cs: "getCosineSimilarity fp (Some qv) (Some (narrowed fp p (snip_id (fst x)))) = Inr (Num s)"
    by simp
  from getCosineSimilarity_double [OF cs] cs show ?thesis
    by (simp add: double_score_def scored_entry_def score_def similarity_def)
qed

lemma sorted_desc:
  "sorted (map (\<lambda>e. - num_val (score e)) xs) \<Longrightarrow> sorted_wrt (\<lambda>a b. num_val (score b) \<le> num_val (score a)) xs"
  by (simp add: sorted_wrt_map)

lemma filter_score_key:
  assumes "\<forall>e\<in>set xs. double_score fp e"
  shows "filter (\<lambda>e. score e = k) xs
           = (if isFinite k then filter (\<lambda>e. - num_val (score e) = - num_val k) xs else [])"
proof (cases "isFinite k")
  case True
  then obtain t where k: "k = Num t" by (cases k) simp_all
  have "filter (\<lambda>e. score e = k) xs = filter (\<lambda>e. - num_val (score e) = - num_val k) xs"
  proof (rule filter_cong [OF refl])
    fix e assume "e \<in> set xs"
    with assms have "double_score fp e" by blast
    from double_score_Num [OF this] obtain s where "score e = Num s" by blast
    then show "(score e = k) = (- num_val (score e) = - num_val k)" by (simp add: k)
  qed
  with True show ?thesis by simp
next
  case False
  have "filter (\<lambda>e. score e = k) xs = []"
  proof (rule filter_False)
    show "\<forall>e\<in>set xs. \<not> score e = k"
    proof
      fix e assume "e \<in> set xs"
      with assms have "double_score fp e" by blast
      from double_score_Num [OF this] obtain s where "score e = Num s" by blast
      with False show "\<not> score e = k" by auto
    qed
  qed
  with False show ?thesis by simp
qed

lemma similarity_exact:
  assumes "well_formed q v"
  shows "similarity exact q v = Num (cosine q v)"
proof -
  from assms have len: "length q = length v" and fin: "\<forall>x\<in>set q \<union> set v. isFinite x"
    and nz: "vec_norm q \<noteq> 0" "vec_norm v \<noteq> 0"
    by (auto simp: well_formed_def list_all_iff)
  from getCosineSimilarity_exact [OF len fin] nz show ?thesis by (simp add: similarity_def)
qed

lemma rankSnippets_sorted:
  assumes sign: "subtraction_sign fp" and q: "trim q \<noteq> []" and emb: "embed_query w q = Inr qv"
    and items: "\<forall>x \<in> set (getAllSnippetItems p). valid_snippet (fst x) \<and> has_entry p (snip_id (fst x))
            \<and> scorable fp (map (fround fp) qv) (narrowed fp p (snip_id (fst x)))"
  shows "fst (rankSnippets fp w q p)
           = Inr (sort_key (\<lambda>e. - num_val (score e))
                   (map (scored_entry fp p (map (fround fp) qv)) (getAllSnippetItems p)))"
proof -
  let ?p1 = "p\<lparr>sent := sent p @ [EmbedQuery q]\<rparr>"
  let ?qv = "map (fround fp) qv"
  let ?scored = "map (scored_entry fp p ?qv) (getAllSnippetItems p)"
  have he: "has_entry ?p1 = has_entry p" by (rule ext) (simp add: has_entry_def)
  have nr: "narrowed fp ?p1 = narrowed fp p" by (rule ext) (simp add: narrowed_def)
  have se: "scored_entry fp ?p1 ?qv = scored_entry fp p ?qv"
    by (rule ext) (simp add: scored_entry_def nr)
  from items have "\<forall>x \<in> set (getAllSnippetItems p). valid_snippet (fst x) \<and> has_entry ?p1 (snip_id (fst x))
            \<and> scorable fp ?qv (narrowed fp ?p1 (snip_id (fst x)))"
    unfolding he nr by simp
  then have loop: "score_loop fp ?p1 ?qv (getAllSnippetItems p) = Inr ?scored"
    using score_loop_scores [of "getAllSnippetItems p" ?p1 fp ?qv] unfolding se by simp
  have dbl: "\<forall>e\<in>set ?scored. double_score fp e"
    using items scored_entry_double by auto
  show ?thesis
  proof (cases "getAllSnippetItems p = []")
    case True
    then show ?thesis by (simp add: rankSnippets_unfold)
  next
    case False
    with q emb show ?thesis
      by (simp add: rankSnippets_unfold embedQuery_def rank_with_def loop js_sort_sort_key [OF sign dbl])
  qed
qed

lemma abc_items:
  "getAllSnippetItems abc_popup =
     [(\<lparr>snip_id = ''A'', snip_text = ''alpha''\<rparr>, Local), (\<lparr>snip_id = ''B'', snip_text = ''beta''\<rparr>, Local),
      (\<lparr>snip_id = ''C'', snip_text = ''gamma''\<rparr>, Sync)]"
  by (simp add: getAllSnippetItems_def abc_popup_def)

subsection \<open>Arithmetic with rounding errors\<close>

lemma enclosedE: "enclosed x lo hi \<Longrightarrow> \<exists>r. x = Num r \<and> lo \<le> r \<and> r \<le> hi"
  by (cases x) (simp_all add: enclosed_def)

lemma enclosed_Num: "lo \<le> r \<Longrightarrow> r \<le> hi \<Longrightarrow> enclosed (Num r) lo hi"
  by (simp add: enclosed_def)

lemma accurate64:
  assumes "accurate fp" "1 / 1000 \<le> z" "z \<le> 1000"
  shows "\<exists>r. fl fp z = Num r \<and> z * (99999 / 100000) \<le> r \<and> r \<le> z * (100001 / 100000)"
proof -
  from assms have "1 / 1000 \<le> \<bar>z\<bar> \<and> \<bar>z\<bar> \<le> 1000" by simp
  with assms(1) obtain r where r: "round64 fp z = Num r" and e: "\<bar>r - z\<bar> \<le> \<bar>z\<bar> / 100000"
    unfolding accurate_def by blast
  from assms(2) have nz: "z \<noteq> 0" and pos: "\<bar>z\<bar> = z" by simp_all
  from e have "z - z / 100000 \<le> r" "r \<le> z + z / 100000" unfolding pos by linarith+
  then have "z * (99999 / 100000) \<le> r" "r \<le> z * (100001 / 100000)" by simp_all
  with r nz show ?thesis by (simp add: fl_def)
qed

lemma accurate64_neg:
  assumes "accurate fp" "z \<le> - (1 / 1000)" "- 1000 \<le> z"
  shows "\<exists>r. fl fp z = Num r \<and> r < 0"
proof -
  from assms have "1 / 1000 \<le> \<bar>z\<bar> \<and> \<bar>z\<bar> \<le> 1000" by simp
  with assms(1) obtain r where r: "round64 fp z = Num r" and e: "\<bar>r - z\<bar> \<le> \<bar>z\<bar> / 100000"
    unfolding accurate_def by blast
  from assms(2) have nz: "z \<noteq> 0" and neg: "\<bar>z\<bar> = - z" by simp_all
  from e have "r \<le> z - z / 100000" unfolding neg by linarith
  with assms(2) have "r < 0" by simp
  with r nz show ?thesis by (simp add: fl_def)
qed

lemma accurate32:
  assumes "accurate fp" "1 / 1000 \<le> z" "z \<le> 1000"
  shows "\<exists>r. fround fp (Num z) = Num r \<and> z * (99999 / 100000) \<le> r \<and> r \<le> z * (100001 / 100000)"
proof -
  from assms have "1 / 1000 \<le> \<bar>z\<bar> \<and> \<bar>z\<bar> \<le> 1000" by simp
  with assms(1) obtain r where r: "round32 fp z = Num r" and e: "\<bar>r - z\<bar> \<le> \<bar>z\<bar> / 100000"
    unfolding accurate_def by blast
  from assms(2) have nz: "z \<noteq> 0" and pos: "\<bar>z\<bar> = z" by simp_all
  from e have "z - z / 100000 \<le> r" "r \<le> z + z / 100000" unfolding pos by linarith+
  then have "z * (99999 / 100000) \<le> r" "r \<le> z * (100001 / 100000)" by simp_all
  with r nz show ?thesis by simp
qed

lemma encl_fl:
  assumes acc: "accurate fp" and z: "lo \<le> z" "z \<le> hi" and range: "1 / 1000 \<le> lo" "hi \<le> 1000"
    and out: "lo' \<le> lo * (99999 / 100000)" "hi * (100001 / 100000) \<le> hi'"
  shows "enclosed (fl fp z) lo' hi'"
proof -
  from z range have "1 / 1000 \<le> z" "z \<le> 1000" by simp_all
  from accurate64 [OF acc this] obtain r where r: "fl fp z = Num r"
    and b: "z * (99999 / 100000) \<le> r" "r \<le> z * (100001 / 100000)" by blast
  from z have "lo * (99999 / 100000) \<le> z * (99999 / 100000)" "z * (100001 / 100000) \<le> hi * (100001 / 100000)"
    by simp_all
  with b out have "lo' \<le> r" "r \<le> hi'" by linarith+
  with r show ?thesis by (simp add: enclosed_def)
qed

lemma encl_fround:
  assumes acc: "accurate fp" and range: "1 / 1000 \<le> z" "z \<le> 1000"
    and out: "lo' \<le> z * (99999 / 100000)" "z * (100001 / 100000) \<le> hi'"
  shows "enclosed (fround fp (Num z)) lo' hi'"
proof -
  from accurate32 [OF acc range] obtain r where r: "fround fp (Num z) = Num r"
    and b: "z * (99999 / 100000) \<le> r" "r \<le> z * (100001 / 100000)" by blast
  from b out have "lo' \<le> r" "r \<le> hi'" by linarith+
  with r show ?thesis by (simp add: enclosed_def)
qed

lemma encl_add:
  assumes acc: "accurate fp" and a: "enclosed a al ah" and b: "enclosed b bl bh"
    and range: "1 / 1000 \<le> al + bl" "ah + bh \<le> 1000"
    and out: "lo' \<le> (al + bl) * (99999 / 100000)" "(ah + bh) * (100001 / 100000) \<le> hi'"
  shows "enclosed (js_add fp a b) lo' hi'"
proof -
  from enclosedE [OF a] obtain x where x: "a = Num x" "al \<le> x" "x \<le> ah" by blast
  from enclosedE [OF b] obtain y where y: "b = Num y" "bl \<le> y" "y \<le> bh" by blast
  from x y have "al + bl \<le> x + y" "x + y \<le> ah + bh" by simp_all
  from encl_fl [OF acc this range out] x y show ?thesis by simp
qed

lemma encl_mul:
  assumes acc: "accurate fp" and a: "enclosed a al ah" and b: "enclosed b bl bh"
    and pos: "0 \<le> al" "0 \<le> bl"
    and range: "1 / 1000 \<le> al * bl" "ah * bh \<le> 1000"
    and out: "lo' \<le> (al * bl) * (99999 / 100000)" "(ah * bh) * (100001 / 100000) \<le> hi'"
  shows "enclosed (js_mul fp a b) lo' hi'"
proof -
  from enclosedE [OF a] obtain x where x: "a = Num x" "al \<le> x" "x \<le> ah" by blast
  from enclosedE [OF b] obtain y where y: "b = Num y" "bl \<le> y" "y \<le> bh" by blast
  from x y pos have "al * bl \<le> x * y" by (intro mult_mono) simp_all
  moreover from x y pos have "x * y \<le> ah * bh" by (intro mult_mono) simp_all
  ultimately show ?thesis using encl_fl [OF acc _ _ range out, of "x * y"] x y by simp
qed

lemma encl_div:
  assumes acc: "accurate fp" and a: "enclosed a al ah" and b: "enclosed b bl bh"
    and pos: "0 \<le> al" "0 < bl"
    and range: "1 / 1000 \<le> al / bh" "ah / bl \<le> 1000"
    and out: "lo' \<le> (al / bh) * (99999 / 100000)" "(ah / bl) * (100001 / 100000) \<le> hi'"
  shows "enclosed (js_div fp a b) lo' hi'"
proof -
  from enclosedE [OF a] obtain x where x: "a = Num x" "al \<le> x" "x \<le> ah" by blast
  from enclosedE [OF b] obtain y where y: "b = Num y" "bl \<le> y" "y \<le> bh" by blast
  from y pos have ypos: "0 < y" by simp
  from x y pos ypos have "al / bh \<le> x / y" by (intro frac_le) simp_all
  moreover from x y pos ypos have "x / y \<le> ah / bl" by (intro frac_le) simp_all
  ultimately show ?thesis using encl_fl [OF acc _ _ range out, of "x / y"] x y ypos by simp
qed

lemma encl_sqrt:
  assumes acc: "accurate fp" and a: "enclosed a al ah"
    and root: "0 \<le> sl" "sl * sl \<le> al" "0 \<le> sh" "ah \<le> sh * sh"
    and range: "1 / 1000 \<le> sl" "sh \<le> 1000"
    and out: "lo' \<le> sl * (99999 / 100000)" "sh * (100001 / 100000) \<le> hi'"
  shows "enclosed (js_sqrt fp a) lo' hi'"
proof -
  from enclosedE [OF a] obtain x where x: "a = Num x" "al \<le> x" "x \<le> ah" by blast
  from root x have "sl\<^sup>2 \<le> x" by (simp add: power2_eq_square)
  then have lo: "sl \<le> sqrt x" by (rule real_le_rsqrt)
  from root x have "x \<le> sh\<^sup>2" by (simp add: power2_eq_square)
  with root(3) have hi: "sqrt x \<le> sh" by (intro real_le_lsqrt) simp_all
  from root x have "0 \<le> x" by (metis mult_nonneg_nonneg order_trans)
  with encl_fl [OF acc lo hi range out] x show ?thesis by simp
qed

lemma js_mul_zero: "js_mul fp (Num 0) (Num y) = Num 0" "js_mul fp (Num x) (Num 0) = Num 0"
  by (simp_all add: fl_zero)

lemma encl_positive:
  assumes acc: "accurate fp" and a: "enclosed a al ah" and b: "enclosed b bl bh"
    and range: "1 / 1000 \<le> al - bh" "ah - bl \<le> 1000"
  shows "js_positive (js_sub fp a b)"
proof -
  from enclosedE [OF a] obtain x where x: "a = Num x" "al \<le> x" "x \<le> ah" by blast
  from enclosedE [OF b] obtain y where y: "b = Num y" "bl \<le> y" "y \<le> bh" by blast
  from x y range have "1 / 1000 \<le> x - y" "x - y \<le> 1000" by linarith+
  from accurate64 [OF acc this] obtain r where "fl fp (x - y) = Num r" "(x - y) * (99999 / 100000) \<le> r"
    by blast
  moreover from \<open>1 / 1000 \<le> x - y\<close> have "0 < (x - y) * (99999 / 100000)" by simp
  ultimately show ?thesis using x y by (simp add: js_sub_def)
qed

lemma encl_not_positive:
  assumes acc: "accurate fp" and a: "enclosed a al ah" and b: "enclosed b bl bh"
    and range: "ah - bl \<le> - (1 / 1000)" "- 1000 \<le> al - bh"
  shows "\<not> js_positive (js_sub fp a b)"
proof -
  from enclosedE [OF a] obtain x where x: "a = Num x" "al \<le> x" "x \<le> ah" by blast
  from enclosedE [OF b] obtain y where y: "b = Num y" "bl \<le> y" "y \<le> bh" by blast
  from x y range have "x - y \<le> - (1 / 1000)" "- 1000 \<le> x - y" by linarith+
  from accurate64_neg [OF acc this] obtain r where "fl fp (x - y) = Num r" "r < 0" by blast
  then show ?thesis using x y by (simp add: js_sub_def)
qed

lemma accurate_exact: "accurate exact"
  by (simp add: accurate_def exact_def)

lemma subtraction_sign_exact: "subtraction_sign exact"
  by (simp add: subtraction_sign_def fl_exact)

subsection \<open>The example of the spec\<close>

lemma getCosineSimilarity_two:
  assumes "js_add fp (js_add fp (Num 0) (js_mul fp (Num a1) (Num b1))) (js_mul fp (Num a2) (Num b2)) = dot"
    and "js_add fp (js_add fp (Num 0) (js_mul fp (Num a1) (Num a1))) (js_mul fp (Num a2) (Num a2)) = Num na"
    and "js_add fp (js_add fp (Num 0) (js_mul fp (Num b1) (Num b1))) (js_mul fp (Num b2) (Num b2)) = Num nb"
    and "na \<noteq> 0" "nb \<noteq> 0"
  shows "getCosineSimilarity fp (Some [Num a1, Num a2]) (Some [Num b1, Num b2])
           = Inr (js_div fp dot (js_mul fp (js_sqrt fp (Num na)) (js_sqrt fp (Num nb))))"
  using assms
  by (simp add: getCosineSimilarity_def del: js_add.simps js_mul.simps js_div.simps js_sqrt.simps)

lemma fround_zero: "fround fp (Num 0) = Num 0"
  by simp

lemma abc_entries:
  "has_entry abc_popup ''A''" "has_entry abc_popup ''B''" "has_entry abc_popup ''C''"
  "narrowed fp abc_popup ''A'' = [fround fp (Num 1), Num 0]"
  "narrowed fp abc_popup ''B'' = [Num 0, fround fp (Num 1)]"
  "narrowed fp abc_popup ''C'' = [fround fp (Num (9 / 10)), fround fp (Num (1 / 10))]"
  by (simp_all add: has_entry_def narrowed_def abc_popup_def del: fround.simps add: fround_zero)

lemma abc_valid:
  "valid_snippet \<lparr>snip_id = ''A'', snip_text = ''alpha''\<rparr>"
  "valid_snippet \<lparr>snip_id = ''B'', snip_text = ''beta''\<rparr>"
  "valid_snippet \<lparr>snip_id = ''C'', snip_text = ''gamma''\<rparr>"
  by (simp_all add: valid_snippet_def trim_demo)

lemma abc_rank_with:
  assumes a: "getCosineSimilarity fp (Some [fround fp (Num 1), Num 0]) (Some [fround fp (Num 1), Num 0]) = Inr (Num sa)"
    and b: "getCosineSimilarity fp (Some [fround fp (Num 1), Num 0]) (Some [Num 0, fround fp (Num 1)]) = Inr (Num 0)"
    and c: "getCosineSimilarity fp (Some [fround fp (Num 1), Num 0])
              (Some [fround fp (Num (9 / 10)), fround fp (Num (1 / 10))]) = Inr (Num sc)"
    and cb: "js_positive (js_sub fp (Num sc) (Num 0))"
    and ca: "\<not> js_positive (js_sub fp (Num sc) (Num sa))"
  shows "rank_with fp abc_popup (map (fround fp) [Num 1, Num 0]) (getAllSnippetItems abc_popup) =
     Inr [\<lparr>e_snippet = \<lparr>snip_id = ''A'', snip_text = ''alpha''\<rparr>, e_area = Local, e_score = Some (Num sa)\<rparr>,
          \<lparr>e_snippet = \<lparr>snip_id = ''C'', snip_text = ''gamma''\<rparr>, e_area = Sync, e_score = Some (Num sc)\<rparr>,
          \<lparr>e_snippet = \<lparr>snip_id = ''B'', snip_text = ''beta''\<rparr>, e_area = Local, e_score = Some (Num 0)\<rparr>]"
proof -
  have gv: "getSnippetVector fp abc_popup \<lparr>snip_id = ''A'', snip_text = ''alpha''\<rparr> = Inr [fround fp (Num 1), Num 0]"
    "getSnippetVector fp abc_popup \<lparr>snip_id = ''B'', snip_text = ''beta''\<rparr> = Inr [Num 0, fround fp (Num 1)]"
    "getSnippetVector fp abc_popup \<lparr>snip_id = ''C'', snip_text = ''gamma''\<rparr>
       = Inr [fround fp (Num (9 / 10)), fround fp (Num (1 / 10))]"
    using getSnippetVector_entry [OF abc_valid(1), of abc_popup fp]
      getSnippetVector_entry [OF abc_valid(2), of abc_popup fp]
      getSnippetVector_entry [OF abc_valid(3), of abc_popup fp]
    by (simp_all add: abc_entries del: fround.simps)
  have qv: "map (fround fp) [Num 1, Num 0] = [fround fp (Num 1), Num 0]" by simp
  have loop: "score_loop fp abc_popup [fround fp (Num 1), Num 0] (getAllSnippetItems abc_popup) =
     Inr [\<lparr>e_snippet = \<lparr>snip_id = ''A'', snip_text = ''alpha''\<rparr>, e_area = Local, e_score = Some (Num sa)\<rparr>,
          \<lparr>e_snippet = \<lparr>snip_id = ''B'', snip_text = ''beta''\<rparr>, e_area = Local, e_score = Some (Num 0)\<rparr>,
          \<lparr>e_snippet = \<lparr>snip_id = ''C'', snip_text = ''gamma''\<rparr>, e_area = Sync, e_score = Some (Num sc)\<rparr>]"
    unfolding abc_items by (simp add: gv a b c del: fround.simps)
  show ?thesis
    unfolding qv rank_with_def loop
    by (simp add: js_sort_def score_def cb ca)
qed

lemma abc_similarities:
  assumes acc: "accurate fp"
  shows "\<exists>sa sc. getCosineSimilarity fp (Some [fround fp (Num 1), Num 0]) (Some [fround fp (Num 1), Num 0]) = Inr (Num sa)
     \<and> getCosineSimilarity fp (Some [fround fp (Num 1), Num 0]) (Some [Num 0, fround fp (Num 1)]) = Inr (Num 0)
     \<and> getCosineSimilarity fp (Some [fround fp (Num 1), Num 0])
              (Some [fround fp (Num (9 / 10)), fround fp (Num (1 / 10))]) = Inr (Num sc)
     \<and> 9985 / 10000 \<le> sa \<and> sa \<le> 10015 / 10000 \<and> 9924 / 10000 \<le> sc \<and> sc \<le> 9954 / 10000"
proof -
  have z: "enclosed (Num 0) 0 0" by (simp add: enclosed_def)
  have "enclosed (fround fp (Num 1)) (9999 / 10000) (10001 / 10000)"
    by (rule encl_fround [OF acc]) simp_all
  from enclosedE [OF this] obtain r where r: "fround fp (Num 1) = Num r"
    and rb: "9999 / 10000 \<le> r" "r \<le> 10001 / 10000" by blast
  have "enclosed (fround fp (Num (9 / 10))) (8999 / 10000) (9001 / 10000)"
    by (rule encl_fround [OF acc]) simp_all
  from enclosedE [OF this] obtain c1 where c1: "fround fp (Num (9 / 10)) = Num c1"
    and c1b: "8999 / 10000 \<le> c1" "c1 \<le> 9001 / 10000" by blast
  have "enclosed (fround fp (Num (1 / 10))) (999 / 10000) (1001 / 10000)"
    by (rule encl_fround [OF acc]) simp_all
  from enclosedE [OF this] obtain c2 where c2: "fround fp (Num (1 / 10)) = Num c2"
    and c2b: "999 / 10000 \<le> c2" "c2 \<le> 1001 / 10000" by blast
  have er: "enclosed (Num r) (9999 / 10000) (10001 / 10000)" using rb by (rule enclosed_Num)
  have ec1: "enclosed (Num c1) (8999 / 10000) (9001 / 10000)" using c1b by (rule enclosed_Num)
  have ec2: "enclosed (Num c2) (999 / 10000) (1001 / 10000)" using c2b by (rule enclosed_Num)
  (* The squared norm of the query vector [r, 0] and its root. *)
  have rr: "enclosed (js_mul fp (Num r) (Num r)) (9997 / 10000) (10003 / 10000)"
    by (rule encl_mul [OF acc er er]) simp_all
  have n1: "enclosed (js_add fp (Num 0) (js_mul fp (Num r) (Num r))) (9996 / 10000) (10004 / 10000)"
    by (rule encl_add [OF acc z rr]) simp_all
  have "enclosed (js_add fp (js_add fp (Num 0) (js_mul fp (Num r) (Num r))) (Num 0)) (9995 / 10000) (10005 / 10000)"
    by (rule encl_add [OF acc n1 z]) simp_all
  from enclosedE [OF this] obtain d
    where d: "js_add fp (js_add fp (Num 0) (js_mul fp (Num r) (Num r))) (Num 0) = Num d"
    and db: "9995 / 10000 \<le> d" "d \<le> 10005 / 10000" by blast
  have ed: "enclosed (Num d) (9995 / 10000) (10005 / 10000)" using db by (rule enclosed_Num)
  have nq: "js_add fp (js_add fp (Num 0) (js_mul fp (Num r) (Num r))) (js_mul fp (Num 0) (Num 0)) = Num d"
    unfolding js_mul_zero by (rule d)
  have sq: "enclosed (js_sqrt fp (Num d)) (9996 / 10000) (10004 / 10000)"
    by (rule encl_sqrt [OF acc ed, of "9997 / 10000" "10003 / 10000"]) simp_all
  (* The vector A, which is the query vector. *)
  have pa: "enclosed (js_mul fp (js_sqrt fp (Num d)) (js_sqrt fp (Num d))) (9991 / 10000) (10009 / 10000)"
    by (rule encl_mul [OF acc sq sq]) simp_all
  have "enclosed (js_div fp (Num d) (js_mul fp (js_sqrt fp (Num d)) (js_sqrt fp (Num d))))
          (9985 / 10000) (10015 / 10000)"
    by (rule encl_div [OF acc ed pa]) simp_all
  from enclosedE [OF this] obtain sa
    where sa: "js_div fp (Num d) (js_mul fp (js_sqrt fp (Num d)) (js_sqrt fp (Num d))) = Num sa"
    and sab: "9985 / 10000 \<le> sa" "sa \<le> 10015 / 10000" by blast
  from db have dnz: "d \<noteq> 0" by simp
  have A: "getCosineSimilarity fp (Some [Num r, Num 0]) (Some [Num r, Num 0]) = Inr (Num sa)"
    using getCosineSimilarity_two [OF nq nq nq dnz dnz] sa by simp
  (* The vector B = [0, r]. *)
  from enclosedE [OF n1] obtain nb
    where nb: "js_add fp (Num 0) (js_mul fp (Num r) (Num r)) = Num nb"
    and nbb: "9996 / 10000 \<le> nb" "nb \<le> 10004 / 10000" by blast
  have enb: "enclosed (Num nb) (9996 / 10000) (10004 / 10000)" using nbb by (rule enclosed_Num)
  have nB: "js_add fp (js_add fp (Num 0) (js_mul fp (Num 0) (Num 0))) (js_mul fp (Num r) (Num r)) = Num nb"
    unfolding js_mul_zero using nb by (simp add: fl_zero)
  have dB: "js_add fp (js_add fp (Num 0) (js_mul fp (Num r) (Num 0))) (js_mul fp (Num 0) (Num r)) = Num 0"
    unfolding js_mul_zero by (simp add: fl_zero)
  have sqb: "enclosed (js_sqrt fp (Num nb)) (9996 / 10000) (10004 / 10000)"
    by (rule encl_sqrt [OF acc enb, of "9997 / 10000" "10003 / 10000"]) simp_all
  have "enclosed (js_mul fp (js_sqrt fp (Num d)) (js_sqrt fp (Num nb))) (9991 / 10000) (10009 / 10000)"
    by (rule encl_mul [OF acc sq sqb]) simp_all
  from enclosedE [OF this] obtain pb
    where pb: "js_mul fp (js_sqrt fp (Num d)) (js_sqrt fp (Num nb)) = Num pb" and pbb: "9991 / 10000 \<le> pb"
    by blast
  from nbb have nbnz: "nb \<noteq> 0" by simp
  from pbb have "pb \<noteq> 0" by simp
  then have "js_div fp (Num 0) (Num pb) = Num 0" by (simp add: fl_zero)
  then have B: "getCosineSimilarity fp (Some [Num r, Num 0]) (Some [Num 0, Num r]) = Inr (Num 0)"
    using getCosineSimilarity_two [OF dB nq nB dnz nbnz] pb by simp
  (* The vector C = [c1, c2]. *)
  have m1: "enclosed (js_mul fp (Num r) (Num c1)) (8998 / 10000) (9003 / 10000)"
    by (rule encl_mul [OF acc er ec1]) simp_all
  have m2: "enclosed (js_add fp (Num 0) (js_mul fp (Num r) (Num c1))) (8997 / 10000) (9004 / 10000)"
    by (rule encl_add [OF acc z m1]) simp_all
  have "enclosed (js_add fp (js_add fp (Num 0) (js_mul fp (Num r) (Num c1))) (Num 0)) (8996 / 10000) (9005 / 10000)"
    by (rule encl_add [OF acc m2 z]) simp_all
  from enclosedE [OF this] obtain dc
    where dc: "js_add fp (js_add fp (Num 0) (js_mul fp (Num r) (Num c1))) (Num 0) = Num dc"
    and dcb: "8996 / 10000 \<le> dc" "dc \<le> 9005 / 10000" by blast
  have edc: "enclosed (Num dc) (8996 / 10000) (9005 / 10000)" using dcb by (rule enclosed_Num)
  have dC: "js_add fp (js_add fp (Num 0) (js_mul fp (Num r) (Num c1))) (js_mul fp (Num 0) (Num c2)) = Num dc"
    unfolding js_mul_zero by (rule dc)
  have k1: "enclosed (js_mul fp (Num c1) (Num c1)) (8098 / 10000) (8102 / 10000)"
    by (rule encl_mul [OF acc ec1 ec1]) simp_all
  have k2: "enclosed (js_add fp (Num 0) (js_mul fp (Num c1) (Num c1))) (8097 / 10000) (8103 / 10000)"
    by (rule encl_add [OF acc z k1]) simp_all
  have k3: "enclosed (js_mul fp (Num c2) (Num c2)) (99 / 10000) (101 / 10000)"
    by (rule encl_mul [OF acc ec2 ec2]) simp_all
  have "enclosed (js_add fp (js_add fp (Num 0) (js_mul fp (Num c1) (Num c1))) (js_mul fp (Num c2) (Num c2)))
          (8195 / 10000) (8205 / 10000)"
    by (rule encl_add [OF acc k2 k3]) simp_all
  from enclosedE [OF this] obtain nc
    where nC: "js_add fp (js_add fp (Num 0) (js_mul fp (Num c1) (Num c1))) (js_mul fp (Num c2) (Num c2)) = Num nc"
    and ncb: "8195 / 10000 \<le> nc" "nc \<le> 8205 / 10000" by blast
  have enc: "enclosed (Num nc) (8195 / 10000) (8205 / 10000)" using ncb by (rule enclosed_Num)
  have sqc: "enclosed (js_sqrt fp (Num nc)) (9051 / 10000) (9060 / 10000)"
    by (rule encl_sqrt [OF acc enc, of "9052 / 10000" "9059 / 10000"]) simp_all
  have pc: "enclosed (js_mul fp (js_sqrt fp (Num d)) (js_sqrt fp (Num nc))) (9047 / 10000) (9064 / 10000)"
    by (rule encl_mul [OF acc sq sqc]) simp_all
  have "enclosed (js_div fp (Num dc) (js_mul fp (js_sqrt fp (Num d)) (js_sqrt fp (Num nc))))
          (9924 / 10000) (9954 / 10000)"
    by (rule encl_div [OF acc edc pc]) simp_all
  from enclosedE [OF this] obtain sc
    where sc: "js_div fp (Num dc) (js_mul fp (js_sqrt fp (Num d)) (js_sqrt fp (Num nc))) = Num sc"
    and scb: "9924 / 10000 \<le> sc" "sc \<le> 9954 / 10000" by blast
  from ncb have ncnz: "nc \<noteq> 0" by simp
  have C: "getCosineSimilarity fp (Some [Num r, Num 0]) (Some [Num c1, Num c2]) = Inr (Num sc)"
    using getCosineSimilarity_two [OF dC nq nC dnz ncnz] sc by simp
  show ?thesis
    unfolding r c1 c2 using A B C sab scb by blast
qed

lemma abc_ranking_accurate:
  assumes acc: "accurate fp"
  shows "\<exists>sa sc. rank_with fp abc_popup (map (fround fp) [Num 1, Num 0]) (getAllSnippetItems abc_popup) =
       Inr [\<lparr>e_snippet = \<lparr>snip_id = ''A'', snip_text = ''alpha''\<rparr>, e_area = Local, e_score = Some (Num sa)\<rparr>,
            \<lparr>e_snippet = \<lparr>snip_id = ''C'', snip_text = ''gamma''\<rparr>, e_area = Sync, e_score = Some (Num sc)\<rparr>,
            \<lparr>e_snippet = \<lparr>snip_id = ''B'', snip_text = ''beta''\<rparr>, e_area = Local, e_score = Some (Num 0)\<rparr>]
     \<and> 9985 / 10000 \<le> sa \<and> sa \<le> 10015 / 10000 \<and> 9924 / 10000 \<le> sc \<and> sc \<le> 9954 / 10000"
proof -
  from abc_similarities [OF acc] obtain sa sc
    where a: "getCosineSimilarity fp (Some [fround fp (Num 1), Num 0]) (Some [fround fp (Num 1), Num 0]) = Inr (Num sa)"
    and b: "getCosineSimilarity fp (Some [fround fp (Num 1), Num 0]) (Some [Num 0, fround fp (Num 1)]) = Inr (Num 0)"
    and c: "getCosineSimilarity fp (Some [fround fp (Num 1), Num 0])
              (Some [fround fp (Num (9 / 10)), fround fp (Num (1 / 10))]) = Inr (Num sc)"
    and sab: "9985 / 10000 \<le> sa" "sa \<le> 10015 / 10000" and scb: "9924 / 10000 \<le> sc" "sc \<le> 9954 / 10000"
    by blast
  have z: "enclosed (Num 0) 0 0" by (simp add: enclosed_def)
  have esa: "enclosed (Num sa) (9985 / 10000) (10015 / 10000)" using sab by (rule enclosed_Num)
  have esc: "enclosed (Num sc) (9924 / 10000) (9954 / 10000)" using scb by (rule enclosed_Num)
  have cb: "js_positive (js_sub fp (Num sc) (Num 0))"
    by (rule encl_positive [OF acc esc z]) simp_all
  have ca: "\<not> js_positive (js_sub fp (Num sc) (Num sa))"
    by (rule encl_not_positive [OF acc esc esa]) simp_all
  from abc_rank_with [OF a b c cb ca] sab scb show ?thesis by blast
qed

lemma rankSnippets_abc:
  "fst (rankSnippets fp rank_world ''q'' abc_popup)
     = rank_with fp abc_popup (map (fround fp) [Num 1, Num 0]) (getAllSnippetItems abc_popup)"
proof -
  have "rank_with fp (abc_popup\<lparr>sent := sent abc_popup @ [EmbedQuery ''q'']\<rparr>) (map (fround fp) [Num 1, Num 0])
          (getAllSnippetItems abc_popup)
        = rank_with fp abc_popup (map (fround fp) [Num 1, Num 0]) (getAllSnippetItems abc_popup)"
  proof -
    have "score_loop fp (abc_popup\<lparr>sent := sent abc_popup @ [EmbedQuery ''q'']\<rparr>) qv items
        = score_loop fp abc_popup qv items" for qv items
      by (induction items) (auto simp: getSnippetVector_def split: sum.splits)
    then show ?thesis by (simp add: rank_with_def)
  qed
  moreover have "getAllSnippetItems abc_popup \<noteq> []" by (simp add: abc_items)
  ultimately show ?thesis
    by (simp add: rankSnippets_unfold embedQuery_def trim_demo rank_world_def del: fround.simps)
qed

lemma cos_A: "cosine [Num 1, Num 0] [Num 1, Num 0] = 1"
  by (simp add: cosine_def dot_product_def vec_norm_def)

lemma cos_B: "cosine [Num 1, Num 0] [Num 0, Num 1] = 0"
  by (simp add: cosine_def dot_product_def vec_norm_def)

lemma cos_C_eq: "cosine [Num 1, Num 0] [Num (9 / 10), Num (1 / 10)] = (9 / 10) / sqrt (41 / 50)"
  by (simp add: cosine_def dot_product_def vec_norm_def)

lemma sqrt_lower: "9 / 10 < sqrt (41 / 50 :: real)"
  by (rule real_less_rsqrt) (simp add: power2_eq_square)

lemma sqrt_upper: "sqrt (41 / 50 :: real) < 10 / 11"
  by (rule real_less_lsqrt) (simp_all add: power2_eq_square)

lemma cos_C_bounds:
  "99 / 100 < cosine [Num 1, Num 0] [Num (9 / 10), Num (1 / 10)]"
  "cosine [Num 1, Num 0] [Num (9 / 10), Num (1 / 10)] < 1"
proof -
  have pos: "0 < sqrt (41 / 50 :: real)" by simp
  show "99 / 100 < cosine [Num 1, Num 0] [Num (9 / 10), Num (1 / 10)]"
    unfolding cos_C_eq using sqrt_upper pos by (simp add: field_simps)
  show "cosine [Num 1, Num 0] [Num (9 / 10), Num (1 / 10)] < 1"
    unfolding cos_C_eq using sqrt_lower pos by (simp add: field_simps)
qed

lemma abc_norms: "vec_norm [Num 1, Num 0] = 1" "vec_norm [Num 0, Num 1] = 1"
  "vec_norm [Num (9 / 10), Num (1 / 10)] \<noteq> 0"
  by (simp_all add: vec_norm_def)

lemma abc_similarities_exact:
  "getCosineSimilarity exact (Some [fround exact (Num 1), Num 0]) (Some [fround exact (Num 1), Num 0]) = Inr (Num 1)"
  "getCosineSimilarity exact (Some [fround exact (Num 1), Num 0]) (Some [Num 0, fround exact (Num 1)]) = Inr (Num 0)"
  "getCosineSimilarity exact (Some [fround exact (Num 1), Num 0])
     (Some [fround exact (Num (9 / 10)), fround exact (Num (1 / 10))])
     = Inr (Num (cosine [Num 1, Num 0] [Num (9 / 10), Num (1 / 10)]))"
  unfolding fround_exact
  by (simp_all add: getCosineSimilarity_exact abc_norms cos_A cos_B)

lemma abc_rank_exact:
  "rank_with exact abc_popup (map (fround exact) [Num 1, Num 0]) (getAllSnippetItems abc_popup) = Inr abc_ranked"
proof -
  have cb: "js_positive (js_sub exact (Num (cosine [Num 1, Num 0] [Num (9 / 10), Num (1 / 10)])) (Num 0))"
    using cos_C_bounds(1) by (simp add: js_sub_def fl_exact)
  have ca: "\<not> js_positive (js_sub exact (Num (cosine [Num 1, Num 0] [Num (9 / 10), Num (1 / 10)])) (Num 1))"
    using cos_C_bounds(2) by (simp add: js_sub_def fl_exact)
  from abc_rank_with [OF abc_similarities_exact cb ca] show ?thesis by (simp add: abc_ranked_def)
qed

lemma scorable_requires:
  assumes "scorable fp a b"
  shows "length a = length b \<and> list_all isFinite a \<and> list_all isFinite b"
proof -
  from assms obtain s where s: "getCosineSimilarity fp (Some a) (Some b) = Inr s"
    by (auto simp: scorable_def split: sum.splits)
  then have len: "length a = length b"
    by (auto simp: getCosineSimilarity_def split: if_splits)
  have "\<forall>x\<in>set a \<union> set b. isFinite x"
  proof (rule ccontr)
    assume "\<not> (\<forall>x\<in>set a \<union> set b. isFinite x)"
    then have "\<exists>x\<in>set a \<union> set b. \<not> isFinite x" by blast
    from cosine_loop_nonfinite [OF nonfinite_in_zip [OF len this], of fp "(Num 0, Num 0, Num 0)"] s len
    show False by (simp add: getCosineSimilarity_def)
  qed
  with len show ?thesis by (simp add: list_all_iff)
qed

lemma zero_query_rejected:
  "\<exists>e. getCosineSimilarity fp (Some [Num 0, Num 0]) (Some [x, Num 0]) = Inl e \<and> InvalidVector e"
  by (cases x) (simp_all add: getCosineSimilarity_def InvalidVector_def fl_zero)

text \<open>
  C4, as the claim states it, fails: a snippet with a cached vector and a query vector
  do not always yield a ranking. For the zero query vector \<^verbatim>\<open>getCosineSimilarity\<close> throws,
  and so does \<^verbatim>\<open>rankSnippets\<close>, whatever the rounding.
\<close>

theorem rankSnippets_zero_query_counterexample:
  "getAllSnippetItems zero_popup = [(\<lparr>snip_id = ''x'', snip_text = ''hello''\<rparr>, Local)]
   \<and> map_of (embeddingsIndex zero_popup) ''x'' = Some [Num 1, Num 0]
   \<and> embed_query zero_world ''q'' = Inr [Num 0, Num 0]
   \<and> (\<forall>fp. \<exists>e. fst (rankSnippets fp zero_world ''q'' zero_popup) = Inl e \<and> InvalidVector e)
   \<and> fst (rankSnippets exact zero_world ''q'' zero_popup)
       = Inl (Error ''Cosine similarity requires non-zero vectors.'')"
proof (intro conjI allI)
  show "getAllSnippetItems zero_popup = [(\<lparr>snip_id = ''x'', snip_text = ''hello''\<rparr>, Local)]"
    by (simp add: getAllSnippetItems_def zero_popup_def unembedded_def popup0_def)
  show "map_of (embeddingsIndex zero_popup) ''x'' = Some [Num 1, Num 0]"
    by (simp add: zero_popup_def)
  show "embed_query zero_world ''q'' = Inr [Num 0, Num 0]"
    by (simp add: zero_world_def rank_world_def)
  have run: "fst (rankSnippets fp zero_world ''q'' zero_popup)
      = (case getCosineSimilarity fp (Some [Num 0, Num 0]) (Some [fround fp (Num 1), Num 0]) of
           Inl e \<Rightarrow> Inl e
         | Inr sc \<Rightarrow> Inr [\<lparr>e_snippet = \<lparr>snip_id = ''x'', snip_text = ''hello''\<rparr>, e_area = Local,
                            e_score = Some sc\<rparr>])" for fp
    by (simp add: getAllSnippetItems_def zero_popup_def unembedded_def popup0_def zero_world_def rank_world_def
        rankSnippets_unfold embedQuery_def trim_demo rank_with_def getSnippetVector_def toVector_def
        js_get_def js_sort_def fround_zero split: sum.splits del: fround.simps)
  show "\<exists>e. fst (rankSnippets fp zero_world ''q'' zero_popup) = Inl e \<and> InvalidVector e" for fp
    using zero_query_rejected [of fp "fround fp (Num 1)"] unfolding run by auto
  show "fst (rankSnippets exact zero_world ''q'' zero_popup)
       = Inl (Error ''Cosine similarity requires non-zero vectors.'')"
    unfolding run fround_exact by (simp add: getCosineSimilarity_def fl_exact)
qed

text \<open>
  C4, amended. The scores are doubles computed from single-precision copies of the
  vectors, so the claim holds of what \<^verbatim>\<open>getCosineSimilarity\<close> computes. For every query whose
  embedding succeeds with the vector \<open>qv\<close> and every sequence of valid snippets whose ids
  all have cached vectors that can be scored (\<^verbatim>\<open>getCosineSimilarity\<close> returns a finite number
  for the single-precision copies of \<open>qv\<close> and of the cached vector, which needs equal
  lengths and finite components), \<^verbatim>\<open>rankSnippets\<close> returns the same multiset of snippets,
  each paired with that number, sorted by score descending, and entries of equal score
  keep their input order. In exact arithmetic the number is the cosine similarity of
  two well-formed vectors. For the vectors \<open>A = [1, 0]\<close>, \<open>B = [0, 1]\<close>, \<open>C = [0.9, 0.1]\<close> and
  the query vector \<open>[1, 0]\<close> the order returned is \<open>A, C, B\<close>, with scores within 0.0015 of
  1, between 0.9924 and 0.9954, and 0, in any arithmetic of the stated accuracy.
\<close>

theorem rankSnippets_stable_descending:
  "(subtraction_sign fp \<and> trim q \<noteq> [] \<and> embed_query w q = Inr qv
      \<and> (\<forall>x \<in> set (getAllSnippetItems p). valid_snippet (fst x) \<and> has_entry p (snip_id (fst x))
            \<and> scorable fp (map (fround fp) qv) (narrowed fp p (snip_id (fst x))))
    \<longrightarrow> (\<exists>ranked. fst (rankSnippets fp w q p) = Inr ranked
          \<and> mset ranked = mset (map (scored_entry fp p (map (fround fp) qv)) (getAllSnippetItems p))
          \<and> (\<forall>e \<in> set ranked. isFinite (score e))
          \<and> sorted_wrt (\<lambda>a b. num_val (score b) \<le> num_val (score a)) ranked
          \<and> (\<forall>k. filter (\<lambda>e. score e = k) ranked
                 = filter (\<lambda>e. score e = k)
                     (map (scored_entry fp p (map (fround fp) qv)) (getAllSnippetItems p)))))
   \<and> (scorable fp a b \<longrightarrow> length a = length b \<and> list_all isFinite a \<and> list_all isFinite b)
   \<and> (well_formed a b \<longrightarrow> similarity exact a b = Num (cosine a b))
   \<and> (accurate fp \<longrightarrow>
        (\<exists>sa sc. fst (rankSnippets fp rank_world ''q'' abc_popup) =
           Inr [\<lparr>e_snippet = \<lparr>snip_id = ''A'', snip_text = ''alpha''\<rparr>, e_area = Local, e_score = Some (Num sa)\<rparr>,
                \<lparr>e_snippet = \<lparr>snip_id = ''C'', snip_text = ''gamma''\<rparr>, e_area = Sync, e_score = Some (Num sc)\<rparr>,
                \<lparr>e_snippet = \<lparr>snip_id = ''B'', snip_text = ''beta''\<rparr>, e_area = Local, e_score = Some (Num 0)\<rparr>]
          \<and> 9985 / 10000 \<le> sa \<and> sa \<le> 10015 / 10000 \<and> 9924 / 10000 \<le> sc \<and> sc \<le> 9954 / 10000))"
proof (intro conjI impI)
  assume h: "subtraction_sign fp \<and> trim q \<noteq> [] \<and> embed_query w q = Inr qv
      \<and> (\<forall>x \<in> set (getAllSnippetItems p). valid_snippet (fst x) \<and> has_entry p (snip_id (fst x))
            \<and> scorable fp (map (fround fp) qv) (narrowed fp p (snip_id (fst x))))"
  let ?scored = "map (scored_entry fp p (map (fround fp) qv)) (getAllSnippetItems p)"
  let ?ranked = "sort_key (\<lambda>e. - num_val (score e)) ?scored"
  from h have sign: "subtraction_sign fp" and q: "trim q \<noteq> []" and emb: "embed_query w q = Inr qv"
    and items: "\<forall>x \<in> set (getAllSnippetItems p). valid_snippet (fst x) \<and> has_entry p (snip_id (fst x))
            \<and> scorable fp (map (fround fp) qv) (narrowed fp p (snip_id (fst x)))" by simp_all
  have run: "fst (rankSnippets fp w q p) = Inr ?ranked"
    by (rule rankSnippets_sorted [OF sign q emb items])
  have dbl: "\<forall>e\<in>set ?scored. double_score fp e"
    using items scored_entry_double by auto
  then have dbl': "\<forall>e\<in>set ?ranked. double_score fp e" by simp
  have fin: "\<forall>e \<in> set ?ranked. isFinite (score e)"
  proof
    fix e assume "e \<in> set ?ranked"
    with dbl' have "double_score fp e" by blast
    from double_score_Num [OF this] show "isFinite (score e)" by auto
  qed
  show "\<exists>ranked. fst (rankSnippets fp w q p) = Inr ranked
          \<and> mset ranked = mset ?scored
          \<and> (\<forall>e \<in> set ranked. isFinite (score e))
          \<and> sorted_wrt (\<lambda>a b. num_val (score b) \<le> num_val (score a)) ranked
          \<and> (\<forall>k. filter (\<lambda>e. score e = k) ranked = filter (\<lambda>e. score e = k) ?scored)"
  proof (intro exI conjI allI)
    show "fst (rankSnippets fp w q p) = Inr ?ranked" by (rule run)
    show "mset ?ranked = mset ?scored" by simp
    show "\<forall>e \<in> set ?ranked. isFinite (score e)" by (rule fin)
    show "sorted_wrt (\<lambda>a b. num_val (score b) \<le> num_val (score a)) ?ranked"
      by (rule sorted_desc) (rule sorted_sort_key)
    show "filter (\<lambda>e. score e = k) ?ranked = filter (\<lambda>e. score e = k) ?scored" for k
      unfolding filter_score_key [OF dbl'] filter_score_key [OF dbl]
      using sort_key_stable [of "\<lambda>e. - num_val (score e)" "- num_val k" ?scored] by simp
  qed
next
  assume "scorable fp a b"
  then have r: "length a = length b \<and> list_all isFinite a \<and> list_all isFinite b"
    by (rule scorable_requires)
  from r show "length a = length b" by simp
  from r show "list_all isFinite a" by simp
  from r show "list_all isFinite b" by simp
next
  assume "well_formed a b"
  then show "similarity exact a b = Num (cosine a b)" by (rule similarity_exact)
next
  assume "accurate fp"
  from abc_ranking_accurate [OF this] show "\<exists>sa sc. fst (rankSnippets fp rank_world ''q'' abc_popup) =
           Inr [\<lparr>e_snippet = \<lparr>snip_id = ''A'', snip_text = ''alpha''\<rparr>, e_area = Local, e_score = Some (Num sa)\<rparr>,
                \<lparr>e_snippet = \<lparr>snip_id = ''C'', snip_text = ''gamma''\<rparr>, e_area = Sync, e_score = Some (Num sc)\<rparr>,
                \<lparr>e_snippet = \<lparr>snip_id = ''B'', snip_text = ''beta''\<rparr>, e_area = Local, e_score = Some (Num 0)\<rparr>]
          \<and> 9985 / 10000 \<le> sa \<and> sa \<le> 10015 / 10000 \<and> 9924 / 10000 \<le> sc \<and> sc \<le> 9954 / 10000"
    unfolding rankSnippets_abc .
qed

theorem rankSnippets_stable_descending_witness:
  "fst (rankSnippets exact rank_world ''q'' abc_popup) = Inr abc_ranked
   \<and> mset abc_ranked = mset (map (scored_entry exact abc_popup [Num 1, Num 0]) (getAllSnippetItems abc_popup))
   \<and> sorted_wrt (\<lambda>a b. num_val (score b) \<le> num_val (score a)) abc_ranked
   \<and> map (\<lambda>e. snip_id (e_snippet e)) abc_ranked = [''A'', ''C'', ''B'']
   \<and> similarity exact [Num 1, Num 0] [Num (9 / 10), Num (1 / 10)]
       = Num (cosine [Num 1, Num 0] [Num (9 / 10), Num (1 / 10)])"
proof -
  have run: "fst (rankSnippets exact rank_world ''q'' abc_popup) = Inr abc_ranked"
    unfolding rankSnippets_abc by (rule abc_rank_exact)
  have sc: "scorable exact [Num 1, Num 0] [Num 1, Num 0]" "scorable exact [Num 1, Num 0] [Num 0, Num 1]"
    "scorable exact [Num 1, Num 0] [Num (9 / 10), Num (1 / 10)]"
    by (simp_all add: scorable_def getCosineSimilarity_exact abc_norms)
  have h: "subtraction_sign exact \<and> trim ''q'' \<noteq> [] \<and> embed_query rank_world ''q'' = Inr [Num 1, Num 0]
      \<and> (\<forall>x \<in> set (getAllSnippetItems abc_popup). valid_snippet (fst x) \<and> has_entry abc_popup (snip_id (fst x))
            \<and> scorable exact (map (fround exact) [Num 1, Num 0]) (narrowed exact abc_popup (snip_id (fst x))))"
    unfolding abc_items map_fround_exact
    by (simp add: subtraction_sign_exact trim_demo rank_world_def abc_valid abc_entries fround_exact sc
        del: fround.simps)
  have wf: "well_formed [Num 1, Num 0] [Num (9 / 10), Num (1 / 10)]"
    by (simp add: well_formed_def abc_norms)
  note inst = rankSnippets_stable_descending [of exact "''q''" rank_world "[Num 1, Num 0]" abc_popup
      "[Num 1, Num 0]" "[Num (9 / 10), Num (1 / 10)]"]
  have "\<exists>ranked. fst (rankSnippets exact rank_world ''q'' abc_popup) = Inr ranked
          \<and> mset ranked = mset (map (scored_entry exact abc_popup (map (fround exact) [Num 1, Num 0]))
                                  (getAllSnippetItems abc_popup))
          \<and> sorted_wrt (\<lambda>a b. num_val (score b) \<le> num_val (score a)) ranked"
    using inst [THEN conjunct1, rule_format, OF h]
    apply (elim exE conjE)
    apply (intro exI conjI)
      apply assumption+
    done
  then obtain ranked where r: "fst (rankSnippets exact rank_world ''q'' abc_popup) = Inr ranked"
    and m: "mset ranked = mset (map (scored_entry exact abc_popup (map (fround exact) [Num 1, Num 0]))
                                  (getAllSnippetItems abc_popup))"
    and s: "sorted_wrt (\<lambda>a b. num_val (score b) \<le> num_val (score a)) ranked" by blast
  from r run have eq: "ranked = abc_ranked" by simp
  have sim: "similarity exact [Num 1, Num 0] [Num (9 / 10), Num (1 / 10)]
       = Num (cosine [Num 1, Num 0] [Num (9 / 10), Num (1 / 10)])"
    using inst [THEN conjunct2, THEN conjunct2, THEN conjunct1] wf by blast
  have ids: "map (\<lambda>e. snip_id (e_snippet e)) abc_ranked = [''A'', ''C'', ''B'']"
    by (simp add: abc_ranked_def)
  from run m s sim ids show ?thesis unfolding eq map_fround_exact by simp
qed

section \<open>Properties of moving a snippet\<close>










section \<open>Properties of the memoized embedder\<close>

lemma offscreen_step_attempts:
  "at_most_one_attempt s \<Longrightarrow> at_most_one_attempt (offscreen_step w s ev)"
proof (cases ev)
  case (EmbedText body)
  assume "at_most_one_attempt s"
  then show ?thesis
    unfolding EmbedText
    by (auto simp: at_most_one_attempt_def handleEmbedText_def getEmbedder_def Let_def
        split: option.splits promise_state.splits prod.splits)
next
  case (InitSettles outcome)
  assume "at_most_one_attempt s"
  then show ?thesis
    unfolding InitSettles
    by (auto simp: at_most_one_attempt_def init_settles_def Let_def
        split: option.splits promise_state.splits prod.splits)
qed

lemma offscreen_run_attempts:
  "at_most_one_attempt s \<Longrightarrow> at_most_one_attempt (offscreen_run w es s)"
  unfolding offscreen_run_def
  by (induction es arbitrary: s) (simp_all add: offscreen_step_attempts)

lemma offscreen_step_rejected:
  "embedderPromise s = Some (n, Rejected e) \<Longrightarrow>
   embedderPromise (offscreen_step w s ev) = Some (n, Rejected e)
   \<and> init_attempts (offscreen_step w s ev) = init_attempts s"
  by (cases ev) (auto simp: handleEmbedText_def getEmbedder_def init_settles_def Let_def)

lemma offscreen_run_rejected:
  "embedderPromise s = Some (n, Rejected e) \<Longrightarrow>
   embedderPromise (offscreen_run w es s) = Some (n, Rejected e)
   \<and> init_attempts (offscreen_run w es s) = init_attempts s"
  unfolding offscreen_run_def
proof (induction es arbitrary: s)
  case Nil
  then show ?case by simp
next
  case (Cons ev es)
  from offscreen_step_rejected [OF Cons.prems, of w ev]
  have st: "embedderPromise (offscreen_step w s ev) = Some (n, Rejected e)"
    and at: "init_attempts (offscreen_step w s ev) = init_attempts s" by simp_all
  from Cons.IH [OF st] at show ?case by simp
qed

lemma handleEmbedText_rejected:
  "embedderPromise s = Some (n, Rejected e) \<Longrightarrow> trim text \<noteq> [] \<Longrightarrow>
   responses (handleEmbedText w text s) = responses s @ [(text, ResponseError (message e))]"
  by (simp add: handleEmbedText_def getEmbedder_def respond_def)

text \<open>
  C9, as the claim states it, fails: after a failed initialization the next call makes
  no fresh attempt. The rejected promise stays in \<^verbatim>\<open>embedderPromise\<close>, so the call after the
  failure is answered with the same error and the number of attempts stays one.
\<close>

theorem getEmbedder_failure_sticks_counterexample:
  "init_attempts (offscreen_run offscreen_demo
      [EmbedText ''a'', InitSettles (Some (Error ''Missing local model asset: config.json'')),
       EmbedText ''b'', InitSettles None] offscreen_init) = 1
   \<and> responses (offscreen_run offscreen_demo
      [EmbedText ''a'', InitSettles (Some (Error ''Missing local model asset: config.json'')),
       EmbedText ''b'', InitSettles None] offscreen_init)
     = [(''a'', ResponseError ''Missing local model asset: config.json''),
        (''b'', ResponseError ''Missing local model asset: config.json'')]"
  by (simp add: offscreen_run_def handleEmbedText_def getEmbedder_def init_settles_def respond_def
      offscreen_init_def offscreen_demo_def trim_demo Let_def)

text \<open>
  C9, amended. The initialization is memoized: whatever happens to the document, at
  most one initialization attempt is ever started. While the attempt is in flight a
  call awaits that same promise and starts nothing. When the attempt fails, the failure
  is sent to every call that awaits it; the rejected promise stays memoized, so every
  later call is answered with the same error and no fresh attempt is made.
\<close>

theorem getEmbedder_memoizes:
  "init_attempts (offscreen_run w es offscreen_init) \<le> 1
   \<and> (embedderPromise s = Some (n, Pending) \<and> trim text \<noteq> [] \<longrightarrow>
        handleEmbedText w text s = s\<lparr>awaiting := awaiting s @ [text]\<rparr>)
   \<and> (embedderPromise s = Some (n, Pending) \<longrightarrow>
        init_settles w (Some e) s =
          s\<lparr>embedderPromise := Some (n, Rejected e), awaiting := [],
            responses := responses s @ map (\<lambda>text. (text, ResponseError (message e))) (awaiting s)\<rparr>)
   \<and> (embedderPromise s = Some (n, Rejected e) \<longrightarrow>
        embedderPromise (offscreen_run w es' s) = Some (n, Rejected e)
        \<and> init_attempts (offscreen_run w es' s) = init_attempts s
        \<and> (trim text \<noteq> [] \<longrightarrow>
             responses (handleEmbedText w text (offscreen_run w es' s))
               = responses (offscreen_run w es' s) @ [(text, ResponseError (message e))]))"
proof (intro conjI impI)
  have "at_most_one_attempt offscreen_init"
    by (simp add: at_most_one_attempt_def offscreen_init_def)
  then have "at_most_one_attempt (offscreen_run w es offscreen_init)"
    by (rule offscreen_run_attempts)
  then show "init_attempts (offscreen_run w es offscreen_init) \<le> 1"
    by (auto simp: at_most_one_attempt_def split: option.splits)
next
  assume "embedderPromise s = Some (n, Pending) \<and> trim text \<noteq> []"
  then show "handleEmbedText w text s = s\<lparr>awaiting := awaiting s @ [text]\<rparr>"
    by (simp add: handleEmbedText_def getEmbedder_def)
next
  assume "embedderPromise s = Some (n, Pending)"
  then show "init_settles w (Some e) s =
          s\<lparr>embedderPromise := Some (n, Rejected e), awaiting := [],
            responses := responses s @ map (\<lambda>text. (text, ResponseError (message e))) (awaiting s)\<rparr>"
    by (simp add: init_settles_def respond_def Let_def)
next
  assume r: "embedderPromise s = Some (n, Rejected e)"
  from offscreen_run_rejected [OF r, of w es']
  show "embedderPromise (offscreen_run w es' s) = Some (n, Rejected e)"
    and "init_attempts (offscreen_run w es' s) = init_attempts s" by simp_all
next
  assume r: "embedderPromise s = Some (n, Rejected e)" and t: "trim text \<noteq> []"
  from offscreen_run_rejected [OF r, of w es']
  have "embedderPromise (offscreen_run w es' s) = Some (n, Rejected e)" by simp
  then show "responses (handleEmbedText w text (offscreen_run w es' s))
               = responses (offscreen_run w es' s) @ [(text, ResponseError (message e))]"
    using t by (rule handleEmbedText_rejected)
qed

theorem getEmbedder_memoizes_witness:
  "handleEmbedText offscreen_demo ''b'' (handleEmbedText offscreen_demo ''a'' offscreen_init)
     = \<lparr>embedderPromise = Some (1, Pending), init_attempts = 1, awaiting = [''a'', ''b''], responses = []\<rparr>
   \<and> init_settles offscreen_demo (Some (Error ''boom''))
        \<lparr>embedderPromise = Some (1, Pending), init_attempts = 1, awaiting = [''a'', ''b''], responses = []\<rparr>
     = \<lparr>embedderPromise = Some (1, Rejected (Error ''boom'')), init_attempts = 1, awaiting = [],
        responses = [(''a'', ResponseError ''boom''), (''b'', ResponseError ''boom'')]\<rparr>
   \<and> init_attempts (offscreen_run offscreen_demo [EmbedText ''c'']
        \<lparr>embedderPromise = Some (1, Rejected (Error ''boom'')), init_attempts = 1, awaiting = [],
         responses = [(''a'', ResponseError ''boom''), (''b'', ResponseError ''boom'')]\<rparr>) = 1"
proof -
  let ?s1 = "handleEmbedText offscreen_demo ''a'' offscreen_init"
  let ?s2 = "\<lparr>embedderPromise = Some (1, Pending), init_attempts = 1, awaiting = [''a'', ''b''], responses = []\<rparr>"
  let ?s3 = "\<lparr>embedderPromise = Some (1, Rejected (Error ''boom'')), init_attempts = 1, awaiting = [],
        responses = [(''a'', ResponseError ''boom''), (''b'', ResponseError ''boom'')]\<rparr>"
  have tr: "trim ''a'' \<noteq> []" "trim ''b'' \<noteq> []" by (simp_all add: trim_demo)
  have s1: "?s1 = \<lparr>embedderPromise = Some (1, Pending), init_attempts = 1, awaiting = [''a''], responses = []\<rparr>"
    using tr by (simp add: handleEmbedText_def getEmbedder_def offscreen_init_def offscreen_demo_def Let_def)
  have p1: "embedderPromise ?s1 = Some (1, Pending) \<and> trim ''b'' \<noteq> []" using tr by (simp add: s1)
  have p2: "embedderPromise ?s2 = Some (1, Pending)" by simp
  have p3: "embedderPromise ?s3 = Some (1, Rejected (Error ''boom''))" by simp
  note inst = getEmbedder_memoizes
  have a: "handleEmbedText offscreen_demo ''b'' ?s1 = ?s1\<lparr>awaiting := awaiting ?s1 @ [''b'']\<rparr>"
    using inst [of offscreen_demo "[]" ?s1 1 "''b''", THEN conjunct2, THEN conjunct1] p1 by blast
  have b: "init_settles offscreen_demo (Some (Error ''boom'')) ?s2 =
          ?s2\<lparr>embedderPromise := Some (1, Rejected (Error ''boom'')), awaiting := [],
            responses := responses ?s2 @ map (\<lambda>text. (text, ResponseError (message (Error ''boom'')))) (awaiting ?s2)\<rparr>"
    using inst [of offscreen_demo "[]" ?s2 1 _ "Error ''boom''", THEN conjunct2, THEN conjunct2, THEN conjunct1] p2
    by blast
  have c: "init_attempts (offscreen_run offscreen_demo [EmbedText ''c''] ?s3) = init_attempts ?s3"
    using inst [of offscreen_demo "[]" ?s3 1 _ "Error ''boom''" "[EmbedText ''c'']", THEN conjunct2, THEN conjunct2, THEN conjunct2] p3
    by blast
  from a b c show ?thesis by (simp add: s1)
qed
section \<open>Properties of the search controller\<close>
























lemma fail_request_pending: "r' \<noteq> r \<Longrightarrow> pending (fail_request r e sys) r' = pending sys r'"
  by (simp add: fail_request_def Let_def)

lemma finish_rank_pending: "r' \<noteq> r \<Longrightarrow> pending (finish_rank r ranked sys) r' = pending sys r'"
  by (simp add: finish_rank_def Let_def)

lemma start_rank_pending: "r' \<noteq> r \<Longrightarrow> pending (start_rank r q sys) r' = pending sys r'"
  by (simp add: start_rank_def Let_def fail_request_pending finish_rank_pending)

lemma begin_sync_pending: "r' \<noteq> r \<Longrightarrow> pending (begin_sync r q sys) r' = pending sys r'"
  by (cases "ensure_begin Sync (ui sys)")
    (auto simp: begin_sync_def fail_request_pending start_rank_pending split: ensure_start.splits)

lemma begin_local_pending: "r' \<noteq> r \<Longrightarrow> pending (begin_local r q sys) r' = pending sys r'"
  by (cases "ensure_begin Local (ui sys)")
    (auto simp: begin_local_def fail_request_pending begin_sync_pending split: ensure_start.splits)

















end
